theory Spec2Isabelle
  imports Main "HOL-Library.Word"
begin

unbundle bit_operations_syntax

section \<open>Common conventions\<close>

text \<open>
  The development embeds the inline functions of \<^verbatim>\<open>runtime/stack.h\<close> and the functions of
  \<^verbatim>\<open>dexlayout/dexdiag.cc\<close>.

  Addresses are natural numbers and \<^verbatim>\<open>nullptr\<close> is address 0. A \<^verbatim>\<open>DCHECK\<close> that
  fails, an access outside an array, a null dereference and an uncaught \<^verbatim>\<open>std::out_of_range\<close>
  all end the run; they are the \<open>Inl\<close> results of the functions below. The \<^verbatim>\<open>DCHECK\<close>s
  are taken as compiled in, as in a debug build.
\<close>

type_synonym addr = nat

definition nullptr :: addr where
  "nullptr = 0"

datatype fault = DCheckFailed | OutOfBounds | NullDereference | KeyNotFound

definition and_then :: "fault + 'a \<Rightarrow> ('a \<Rightarrow> fault + 'b) \<Rightarrow> fault + 'b" where
  "and_then r k = (case r of Inl e \<Rightarrow> Inl e | Inr x \<Rightarrow> k x)"

section \<open>ShadowFrame\<close>

text \<open>
  \<^verbatim>\<open>mirror::Object*\<close> and \<^verbatim>\<open>StackReference<mirror::Object>\<close>: the declaration of
  \<^verbatim>\<open>StackReference\<close> lies outside the two source files. The frame stores a reference
  through \<^verbatim>\<open>reinterpret_cast<StackReference<mirror::Object>*>(vreg)->Assign(val)\<close> into a
  \<^verbatim>\<open>uint32_t\<close> register slot, and \<^verbatim>\<open>GetShadowRefAddr\<close> hands out a shadow slot as a
  \<^verbatim>\<open>uint32_t*\<close>, so a stored reference is a 32-bit pattern; the null reference is 0.
\<close>

type_synonym object_ref = "32 word"

definition null_ref :: object_ref where
  "null_ref = 0"

text \<open>\<^verbatim>\<open>DexFile::CodeItem\<close>: only the address of \<^verbatim>\<open>insns_\<close> is used here.\<close>

record CodeItem =
  insns :: addr

text \<open>\<^verbatim>\<open>LockCountData\<close>: \<^verbatim>\<open>std::unique_ptr<std::vector<mirror::Object*>> monitors_\<close>.\<close>

record LockCountData =
  monitors :: "object_ref list option"

text \<open>
  The fields of \<^verbatim>\<open>ShadowFrame\<close> in declaration order, without the trailing underscore
  of their names (\<open>art_method\<close> is \<^verbatim>\<open>method_\<close>). The trailing two-part array
  \<^verbatim>\<open>vregs_\<close> is kept as its two parts: \<open>vregs\<close> is \<^verbatim>\<open>vregs_[0..number_of_vregs)\<close>, the raw
  registers, and \<open>References\<close> is what the accessor \<^verbatim>\<open>References()\<close> yields, the entries
  \<^verbatim>\<open>[number_of_vregs..number_of_vregs*2)\<close>.
\<close>

record ShadowFrame =
  link :: addr
  art_method :: addr
  result_register :: addr
  dex_pc_ptr :: addr
  code_item :: "CodeItem option"
  lock_count_data :: LockCountData
  number_of_vregs :: "32 word"
  dex_pc :: "32 word"
  cached_hotness_countdown :: "16 word"
  hotness_countdown :: "16 word"
  vregs :: "32 word list"
  References :: "object_ref list"

definition NumberOfVRegs :: "ShadowFrame \<Rightarrow> nat" where
  "NumberOfVRegs f = unat (number_of_vregs f)"

text \<open>The storage behind a frame holds exactly \<^verbatim>\<open>number_of_vregs_\<close> entries in each part.\<close>

definition frame_storage_ok :: "ShadowFrame \<Rightarrow> bool" where
  "frame_storage_ok f \<longleftrightarrow>
     length (vregs f) = NumberOfVRegs f \<and> length (References f) = NumberOfVRegs f"

definition HasReferenceArray :: "ShadowFrame \<Rightarrow> bool" where
  "HasReferenceArray f = True"

subsection \<open>Construction\<close>

text \<open>
  The private constructor: the member initialisers, then \<^verbatim>\<open>memset(vregs_, 0, ...)\<close> over both
  parts when \<^verbatim>\<open>has_reference_array\<close> holds. \<^verbatim>\<open>DCHECK(has_reference_array)\<close> fails otherwise.
\<close>

definition ShadowFrame_ctor ::
  "32 word \<Rightarrow> addr \<Rightarrow> addr \<Rightarrow> 32 word \<Rightarrow> bool \<Rightarrow> fault + ShadowFrame" where
  "ShadowFrame_ctor num_vregs lnk m pc has_reference_array =
     (if \<not> has_reference_array then Inl DCheckFailed
      else Inr \<lparr> link = lnk, art_method = m, result_register = nullptr, dex_pc_ptr = nullptr,
                 code_item = None, lock_count_data = \<lparr> monitors = None \<rparr>,
                 number_of_vregs = num_vregs, dex_pc = pc,
                 cached_hotness_countdown = 0, hotness_countdown = 0,
                 vregs = replicate (unat num_vregs) 0,
                 References = replicate (unat num_vregs) null_ref \<rparr>)"

definition CreateShadowFrameImpl ::
  "32 word \<Rightarrow> addr \<Rightarrow> addr \<Rightarrow> 32 word \<Rightarrow> fault + ShadowFrame" where
  "CreateShadowFrameImpl num_vregs lnk m pc = ShadowFrame_ctor num_vregs lnk m pc True"

subsection \<open>Dex pc\<close>

text \<open>
  \<^verbatim>\<open>dex_pc_ptr_ - code_item_->insns_\<close> subtracts two \<^verbatim>\<open>const uint16_t*\<close>: the byte distance
  divided by 2, a \<^verbatim>\<open>ptrdiff_t\<close>, converted to the \<^verbatim>\<open>uint32_t\<close> result by truncation.
\<close>

definition GetDexPC :: "ShadowFrame \<Rightarrow> fault + 32 word" where
  "GetDexPC f =
     (if dex_pc_ptr f = nullptr then Inr (dex_pc f)
      else case code_item f of
             None \<Rightarrow> Inl NullDereference
           | Some c \<Rightarrow> Inr (word_of_int ((int (dex_pc_ptr f) - int (insns c)) div 2)))"

definition SetDexPC :: "32 word \<Rightarrow> ShadowFrame \<Rightarrow> ShadowFrame" where
  "SetDexPC pc f = f\<lparr> dex_pc := pc, dex_pc_ptr := nullptr \<rparr>"

definition GetDexPCPtr :: "ShadowFrame \<Rightarrow> addr" where
  "GetDexPCPtr f = dex_pc_ptr f"

definition SetDexPCPtr :: "addr \<Rightarrow> ShadowFrame \<Rightarrow> ShadowFrame" where
  "SetDexPCPtr p f = f\<lparr> dex_pc_ptr := p \<rparr>"

definition SetCodeItem :: "CodeItem option \<Rightarrow> ShadowFrame \<Rightarrow> ShadowFrame" where
  "SetCodeItem c f = f\<lparr> code_item := c \<rparr>"

subsection \<open>Register reads\<close>

definition GetVReg :: "nat \<Rightarrow> ShadowFrame \<Rightarrow> fault + 32 word" where
  "GetVReg i f = (if \<not> i < NumberOfVRegs f then Inl DCheckFailed else Inr (vregs f ! i))"

text \<open>
  A \<^verbatim>\<open>float\<close> or \<^verbatim>\<open>double\<close> is handled through its bit pattern only; the accessors
  reinterpret, they do no floating-point arithmetic.
\<close>

definition GetVRegFloat :: "nat \<Rightarrow> ShadowFrame \<Rightarrow> fault + 32 word" where
  "GetVRegFloat i f = (if \<not> i < NumberOfVRegs f then Inl DCheckFailed else Inr (vregs f ! i))"

text \<open>
  The 8-byte access at \<^verbatim>\<open>&vregs_[i]\<close> covers slots \<open>i\<close> and \<open>i + 1\<close> (little-endian: the low
  half in slot \<open>i\<close>). Only \<open>i < NumberOfVRegs\<close> is checked by the source; with
  \<open>i + 1 = NumberOfVRegs\<close> the access leaves the raw registers.
\<close>

definition GetVRegLong :: "nat \<Rightarrow> ShadowFrame \<Rightarrow> fault + 64 word" where
  "GetVRegLong i f =
     (if \<not> i < NumberOfVRegs f then Inl DCheckFailed
      else if \<not> i + 1 < NumberOfVRegs f then Inl OutOfBounds
      else Inr (word_cat (vregs f ! (i + 1)) (vregs f ! i)))"

definition GetVRegDouble :: "nat \<Rightarrow> ShadowFrame \<Rightarrow> fault + 64 word" where
  "GetVRegDouble i f =
     (if \<not> i < NumberOfVRegs f then Inl DCheckFailed
      else if \<not> i + 1 < NumberOfVRegs f then Inl OutOfBounds
      else Inr (word_cat (vregs f ! (i + 1)) (vregs f ! i)))"

text \<open>
  \<^verbatim>\<open>GetVRegReference\<close>: the branch on \<^verbatim>\<open>HasReferenceArray()\<close> is kept. The read-barrier
  assertion and \<^verbatim>\<open>VerifyObject\<close> inspect the heap, which is outside the frame; they do not
  change the value returned.
\<close>

definition GetVRegReference :: "nat \<Rightarrow> ShadowFrame \<Rightarrow> fault + object_ref" where
  "GetVRegReference i f =
     (if \<not> i < NumberOfVRegs f then Inl DCheckFailed
      else if HasReferenceArray f then Inr (References f ! i)
      else Inr (vregs f ! i))"

subsection \<open>Register writes\<close>

text \<open>
  \<^verbatim>\<open>kMovingCollector\<close> is a build constant declared outside the two source files; it is the
  first argument of each write.
\<close>

definition SetVReg :: "bool \<Rightarrow> nat \<Rightarrow> 32 word \<Rightarrow> ShadowFrame \<Rightarrow> fault + ShadowFrame" where
  "SetVReg kMovingCollector i val f =
     (if \<not> i < NumberOfVRegs f then Inl DCheckFailed
      else let f1 = f\<lparr> vregs := (vregs f)[i := val] \<rparr>
           in if kMovingCollector \<and> HasReferenceArray f1
              then Inr (f1\<lparr> References := (References f1)[i := null_ref] \<rparr>)
              else Inr f1)"

definition SetVRegFloat :: "bool \<Rightarrow> nat \<Rightarrow> 32 word \<Rightarrow> ShadowFrame \<Rightarrow> fault + ShadowFrame" where
  "SetVRegFloat kMovingCollector i val f =
     (if \<not> i < NumberOfVRegs f then Inl DCheckFailed
      else let f1 = f\<lparr> vregs := (vregs f)[i := val] \<rparr>
           in if kMovingCollector \<and> HasReferenceArray f1
              then Inr (f1\<lparr> References := (References f1)[i := null_ref] \<rparr>)
              else Inr f1)"

text \<open>
  The wide writes store 8 bytes at \<^verbatim>\<open>&vregs_[i]\<close> and clear \<^verbatim>\<open>References()[i]\<close> and
  \<^verbatim>\<open>References()[i + 1]\<close>. With \<open>i + 1 = NumberOfVRegs\<close> the store and the second clear
  leave their arrays.
\<close>

definition SetVRegLong :: "bool \<Rightarrow> nat \<Rightarrow> 64 word \<Rightarrow> ShadowFrame \<Rightarrow> fault + ShadowFrame" where
  "SetVRegLong kMovingCollector i val f =
     (if \<not> i < NumberOfVRegs f then Inl DCheckFailed
      else if \<not> i + 1 < NumberOfVRegs f then Inl OutOfBounds
      else let f1 = f\<lparr> vregs := (vregs f)[i := ucast val, i + 1 := ucast (drop_bit 32 val)] \<rparr>
           in if kMovingCollector \<and> HasReferenceArray f1
              then Inr (f1\<lparr> References := (References f1)[i := null_ref, i + 1 := null_ref] \<rparr>)
              else Inr f1)"

definition SetVRegDouble :: "bool \<Rightarrow> nat \<Rightarrow> 64 word \<Rightarrow> ShadowFrame \<Rightarrow> fault + ShadowFrame" where
  "SetVRegDouble kMovingCollector i val f =
     (if \<not> i < NumberOfVRegs f then Inl DCheckFailed
      else if \<not> i + 1 < NumberOfVRegs f then Inl OutOfBounds
      else let f1 = f\<lparr> vregs := (vregs f)[i := ucast val, i + 1 := ucast (drop_bit 32 val)] \<rparr>
           in if kMovingCollector \<and> HasReferenceArray f1
              then Inr (f1\<lparr> References := (References f1)[i := null_ref, i + 1 := null_ref] \<rparr>)
              else Inr f1)"

definition SetVRegReference :: "nat \<Rightarrow> object_ref \<Rightarrow> ShadowFrame \<Rightarrow> fault + ShadowFrame" where
  "SetVRegReference i val f =
     (if \<not> i < NumberOfVRegs f then Inl DCheckFailed
      else let f1 = f\<lparr> vregs := (vregs f)[i := val] \<rparr>
           in if HasReferenceArray f1
              then Inr (f1\<lparr> References := (References f1)[i := val] \<rparr>)
              else Inr f1)"

subsection \<open>Sequences of register writes\<close>





subsection \<open>Addresses of the shadow slots\<close>

text \<open>
  \<^verbatim>\<open>Contains\<close> compares addresses. \<open>vregs_addr\<close> is the address of \<^verbatim>\<open>vregs_[0]\<close> of the
  frame at hand, \<open>sizeof_StackReference\<close> is \<^verbatim>\<open>sizeof(StackReference<mirror::Object>)\<close>.
  \<^verbatim>\<open>References()\<close> is \<^verbatim>\<open>&vregs_[NumberOfVRegs()]\<close>. \<^verbatim>\<open>NumberOfVRegs() - 1\<close> is computed
  in \<^verbatim>\<open>uint32_t\<close> and wraps for a frame without registers.
\<close>

definition References_addr :: "addr \<Rightarrow> ShadowFrame \<Rightarrow> addr" where
  "References_addr vregs_addr f = vregs_addr + 4 * NumberOfVRegs f"

definition Contains :: "addr \<Rightarrow> nat \<Rightarrow> ShadowFrame \<Rightarrow> addr \<Rightarrow> bool" where
  "Contains vregs_addr sizeof_StackReference f shadow_frame_entry_obj =
     (if HasReferenceArray f
      then References_addr vregs_addr f \<le> shadow_frame_entry_obj \<and>
           shadow_frame_entry_obj \<le>
             References_addr vregs_addr f + sizeof_StackReference * unat (number_of_vregs f - 1)
      else vregs_addr \<le> shadow_frame_entry_obj \<and>
           shadow_frame_entry_obj \<le> vregs_addr + 4 * unat (number_of_vregs f - 1))"

subsection \<open>Size of a frame\<close>

text \<open>
  \<^verbatim>\<open>size_t\<close> is a word of the target's width \<open>'a\<close>. \<^verbatim>\<open>sizeof(ShadowFrame)\<close> and
  \<^verbatim>\<open>sizeof(StackReference<mirror::Object>)\<close> depend on the target and on a declaration outside
  the two source files; they are arguments. \<^verbatim>\<open>sizeof(uint32_t)\<close> is 4.
\<close>

definition ComputeSize :: "'a::len word \<Rightarrow> 'a word \<Rightarrow> 32 word \<Rightarrow> 'a word" where
  "ComputeSize sizeof_ShadowFrame sizeof_StackReference num_vregs =
     sizeof_ShadowFrame + (4 * ucast num_vregs) + (sizeof_StackReference * ucast num_vregs)"

text \<open>The length argument of the constructor's \<^verbatim>\<open>memset(vregs_, 0, ...)\<close>.\<close>

definition ctor_memset_length :: "'a::len word \<Rightarrow> 32 word \<Rightarrow> bool \<Rightarrow> 'a word" where
  "ctor_memset_length sizeof_StackReference num_vregs has_reference_array =
     (if has_reference_array then ucast num_vregs * (4 + sizeof_StackReference)
      else ucast num_vregs * 4)"

text \<open>
  The bytes of the buffer that \<^verbatim>\<open>CreateShadowFrameImpl\<close> touches, as an offset one past the
  last of them: the object itself, \<^verbatim>\<open>sizeof(ShadowFrame)\<close> bytes from offset 0, and the zeroed
  storage from \<^verbatim>\<open>VRegsOffset()\<close> on.
\<close>

definition ctor_extent :: "'a::len word \<Rightarrow> 'a word \<Rightarrow> 'a word \<Rightarrow> 32 word \<Rightarrow> nat" where
  "ctor_extent sizeof_ShadowFrame VRegsOffset sizeof_StackReference num_vregs =
     max (unat sizeof_ShadowFrame)
         (unat VRegsOffset + unat (ctor_memset_length sizeof_StackReference num_vregs True))"

text \<open>\<^verbatim>\<open>CreateDeoptimizedFrame\<close>: \<^verbatim>\<open>new uint8_t[ComputeSize(num_vregs)]\<close>, then the constructor.\<close>

definition CreateDeoptimizedFrame ::
  "'a::len word \<Rightarrow> 'a word \<Rightarrow> 32 word \<Rightarrow> addr \<Rightarrow> addr \<Rightarrow> 32 word \<Rightarrow> 'a word \<times> (fault + ShadowFrame)" where
  "CreateDeoptimizedFrame sizeof_ShadowFrame sizeof_StackReference num_vregs lnk m pc =
     (ComputeSize sizeof_ShadowFrame sizeof_StackReference num_vregs,
      CreateShadowFrameImpl num_vregs lnk m pc)"

section \<open>LockCountData\<close>

text \<open>
  The three operations are declared in \<^verbatim>\<open>stack.h\<close> and defined in a file that is not among
  the sources. A thread is reduced to its pending exception.
\<close>

datatype exception = IllegalMonitorStateException | OtherException

record Thread =
  pending_exception :: "exception option"

definition ledger :: "LockCountData \<Rightarrow> object_ref list" where
  "ledger d = (case monitors d of None \<Rightarrow> [] | Some ms \<Rightarrow> ms)"

definition remove_most_recent :: "object_ref \<Rightarrow> object_ref list \<Rightarrow> object_ref list" where
  "remove_most_recent obj ms = rev (remove1 obj (rev ms))"

text \<open>
  Modelled from the spec: \<^verbatim>\<open>LockCountData::AddMonitor\<close>, whose body is missing. ``Appends
  unconditionally (no-op only if an exception is already pending on the caller's context).''
\<close>

definition AddMonitor :: "Thread \<Rightarrow> object_ref \<Rightarrow> LockCountData \<Rightarrow> Thread \<times> LockCountData" where
  "AddMonitor self obj d =
     (if pending_exception self \<noteq> None then (self, d)
      else (self, d\<lparr> monitors := Some (ledger d @ [obj]) \<rparr>))"

text \<open>
  Modelled from the spec: \<^verbatim>\<open>LockCountData::RemoveMonitorOrThrow\<close>, whose body is missing.
  ``Clears any pending exception, removes one matching entry; raises an IllegalMonitorState
  condition if no match exists.'' Which of several matching entries goes is left open by the
  spec; its design notes recommend the most recent one, which is taken here.
\<close>

definition RemoveMonitorOrThrow ::
  "Thread \<Rightarrow> object_ref \<Rightarrow> LockCountData \<Rightarrow> Thread \<times> LockCountData" where
  "RemoveMonitorOrThrow self obj d =
     (if obj \<in> set (ledger d)
      then (self\<lparr> pending_exception := None \<rparr>,
            d\<lparr> monitors := Some (remove_most_recent obj (ledger d)) \<rparr>)
      else (self\<lparr> pending_exception := Some IllegalMonitorStateException \<rparr>, d))"

text \<open>
  Modelled from the spec: \<^verbatim>\<open>LockCountData::CheckAllMonitorsReleasedOrThrow\<close>, whose body is
  missing. ``Raises IllegalMonitorState iff the ledger is non-empty''; the declaration adds
  that a pending exception is cleared first and that the result is true if everything is in
  order and false otherwise.
\<close>

definition CheckAllMonitorsReleasedOrThrow :: "Thread \<Rightarrow> LockCountData \<Rightarrow> Thread \<times> bool" where
  "CheckAllMonitorsReleasedOrThrow self d =
     (if ledger d \<noteq> []
      then (self\<lparr> pending_exception := Some IllegalMonitorStateException \<rparr>, False)
      else (self, True))"

text \<open>A sequence of lock and unlock operations on a ledger, and the check at frame exit
  after it.\<close>

datatype ledger_op = Lock object_ref | Unlock object_ref

fun run_ledger_op :: "Thread \<times> LockCountData \<Rightarrow> ledger_op \<Rightarrow> Thread \<times> LockCountData" where
  "run_ledger_op (self, d) (Lock obj) = AddMonitor self obj d"
| "run_ledger_op (self, d) (Unlock obj) = RemoveMonitorOrThrow self obj d"

definition run_ledger_ops ::
  "ledger_op list \<Rightarrow> Thread \<times> LockCountData \<Rightarrow> Thread \<times> LockCountData" where
  "run_ledger_ops ops st = foldl run_ledger_op st ops"

definition check_after :: "ledger_op list \<Rightarrow> Thread \<times> LockCountData \<Rightarrow> Thread \<times> bool" where
  "check_after ops st =
     (case run_ledger_ops ops st of (self, d) \<Rightarrow> CheckAllMonitorsReleasedOrThrow self d)"


section \<open>StackVisitor\<close>

text \<open>
  \<^verbatim>\<open>size_t\<close> counters of the visitor are 64-bit words. A thread's stack is the list of its
  logical frames from the newest to the oldest: interpreter frames, compiled frames preceded by
  the frames inlined into them, and the transitions between stack fragments.
\<close>

datatype StackWalkKind = kIncludeInlinedFrames | kSkipInlinedFrames

datatype CountTransitions = kYes | kNo

datatype logical_frame =
    InterpreterFrame addr
  | CompiledFrame addr
  | InlinedFrame addr nat
  | TransitionFrame

record StackVisitor =
  walk_kind :: StackWalkKind
  cur_shadow_frame :: addr
  cur_quick_frame :: addr
  num_frames :: "64 word"
  cur_depth :: "64 word"
  current_inlining_depth :: "64 word"

definition IsShadowFrame :: "StackVisitor \<Rightarrow> bool" where
  "IsShadowFrame v \<longleftrightarrow> cur_shadow_frame v \<noteq> nullptr"

definition IsInInlinedFrame :: "StackVisitor \<Rightarrow> bool" where
  "IsInInlinedFrame v \<longleftrightarrow> current_inlining_depth v \<noteq> 0"

definition GetFrameDepth :: "StackVisitor \<Rightarrow> 64 word" where
  "GetFrameDepth v = cur_depth v"

text \<open>Whether a walk calls \<^verbatim>\<open>VisitFrame\<close> on a logical frame, and whether the frame advances
  \<^verbatim>\<open>cur_depth_\<close>.\<close>

fun is_visited :: "bool \<Rightarrow> StackWalkKind \<Rightarrow> logical_frame \<Rightarrow> bool" where
  "is_visited include_transitions k TransitionFrame = include_transitions"
| "is_visited include_transitions k (InlinedFrame q d) = (k = kIncludeInlinedFrames)"
| "is_visited include_transitions k (InterpreterFrame a) = True"
| "is_visited include_transitions k (CompiledFrame q) = True"

fun counts_toward_depth :: "CountTransitions \<Rightarrow> StackWalkKind \<Rightarrow> logical_frame \<Rightarrow> bool" where
  "counts_toward_depth kCount k TransitionFrame = (kCount = kYes)"
| "counts_toward_depth kCount k (InlinedFrame q d) = (k = kIncludeInlinedFrames)"
| "counts_toward_depth kCount k (InterpreterFrame a) = True"
| "counts_toward_depth kCount k (CompiledFrame q) = True"

text \<open>
  Modelled from the spec: \<^verbatim>\<open>StackVisitor::ComputeNumFrames\<close>, whose body is missing. ``Pre-computes
  total frame count via a full pre-walk'', with the numbering ``self-consistent under that
  walker's own policy'': the number of frames that advance the depth.
\<close>

definition ComputeNumFrames ::
  "CountTransitions \<Rightarrow> logical_frame list \<Rightarrow> StackWalkKind \<Rightarrow> 64 word" where
  "ComputeNumFrames kCount thread k = of_nat (length (filter (counts_toward_depth kCount k) thread))"

text \<open>\<^verbatim>\<open>GetNumFrames\<close>, \<^verbatim>\<open>GetFrameHeight\<close> and \<^verbatim>\<open>GetFrameId\<close> as in \<^verbatim>\<open>stack.h\<close>; the first
  caches its result in \<^verbatim>\<open>num_frames_\<close>.\<close>

definition GetNumFrames ::
  "CountTransitions \<Rightarrow> logical_frame list \<Rightarrow> StackVisitor \<Rightarrow> 64 word \<times> StackVisitor" where
  "GetNumFrames kCount thread v =
     (if num_frames v = 0
      then let v1 = v\<lparr> num_frames := ComputeNumFrames kCount thread (walk_kind v) \<rparr>
           in (num_frames v1, v1)
      else (num_frames v, v))"

definition GetFrameHeight ::
  "CountTransitions \<Rightarrow> logical_frame list \<Rightarrow> StackVisitor \<Rightarrow> 64 word \<times> StackVisitor" where
  "GetFrameHeight kCount thread v =
     (case GetNumFrames kCount thread v of (n, v1) \<Rightarrow> (n - cur_depth v1 - 1, v1))"

definition GetFrameId ::
  "CountTransitions \<Rightarrow> logical_frame list \<Rightarrow> StackVisitor \<Rightarrow> 64 word \<times> StackVisitor" where
  "GetFrameId kCount thread v =
     (case GetFrameHeight kCount thread v of (h, v1) \<Rightarrow> (h + 1, v1))"

text \<open>
  Modelled from the spec: the constructor of \<^verbatim>\<open>StackVisitor\<close>, whose body is missing. The
  cursor starts in the state ``constructed'' at depth 0; the frame count is the caller's or,
  being 0, is computed on first use.
\<close>

definition StackVisitor_ctor :: "StackWalkKind \<Rightarrow> 64 word \<Rightarrow> StackVisitor" where
  "StackVisitor_ctor k n =
     \<lparr> walk_kind = k, cur_shadow_frame = nullptr, cur_quick_frame = nullptr,
       num_frames = n, cur_depth = 0, current_inlining_depth = 0 \<rparr>"

text \<open>The cursor positioned on a logical frame.\<close>

fun position_on :: "logical_frame \<Rightarrow> StackVisitor \<Rightarrow> StackVisitor" where
  "position_on (InterpreterFrame a) v =
     v\<lparr> cur_shadow_frame := a, cur_quick_frame := nullptr, current_inlining_depth := 0 \<rparr>"
| "position_on (CompiledFrame q) v =
     v\<lparr> cur_shadow_frame := nullptr, cur_quick_frame := q, current_inlining_depth := 0 \<rparr>"
| "position_on (InlinedFrame q d) v =
     v\<lparr> cur_shadow_frame := nullptr, cur_quick_frame := q, current_inlining_depth := of_nat d \<rparr>"
| "position_on TransitionFrame v =
     v\<lparr> cur_shadow_frame := nullptr, cur_quick_frame := nullptr, current_inlining_depth := 0 \<rparr>"

text \<open>
  Modelled from the spec: \<^verbatim>\<open>StackVisitor::WalkStack\<close>, whose body is missing. ``Visits logical
  frames newest-to-oldest''; ``a per-frame callback returns a boolean continue? (false stops
  early)''; transition frames ``are visited only when includeTransitions is set, and are counted
  toward depth numbering according to a fixed per-walker policy''. The result lists, in the
  order of the calls, each frame handed to \<^verbatim>\<open>VisitFrame\<close> with the cursor as the callback
  sees it.
\<close>

fun WalkFrames ::
  "CountTransitions \<Rightarrow> bool \<Rightarrow> (StackVisitor \<Rightarrow> bool) \<Rightarrow> logical_frame list \<Rightarrow> StackVisitor \<Rightarrow>
   (logical_frame \<times> StackVisitor) list" where
  "WalkFrames kCount include_transitions VisitFrame [] v = []"
| "WalkFrames kCount include_transitions VisitFrame (fr # frs) v =
     (let v1 = position_on fr v;
          v2 = (if counts_toward_depth kCount (walk_kind v) fr
                then v1\<lparr> cur_depth := cur_depth v1 + 1 \<rparr> else v1)
      in if is_visited include_transitions (walk_kind v) fr
         then (fr, v1) #
              (if VisitFrame v1 then WalkFrames kCount include_transitions VisitFrame frs v2
               else [])
         else WalkFrames kCount include_transitions VisitFrame frs v2)"

definition WalkStack ::
  "CountTransitions \<Rightarrow> bool \<Rightarrow> (StackVisitor \<Rightarrow> bool) \<Rightarrow> logical_frame list \<Rightarrow> StackVisitor \<Rightarrow>
   (logical_frame \<times> StackVisitor) list" where
  "WalkStack kCount include_transitions VisitFrame thread v =
     WalkFrames kCount include_transitions VisitFrame thread v"

text \<open>What a callback reads off the cursor during a walk over \<open>thread\<close>.\<close>

definition frame_heights ::
  "CountTransitions \<Rightarrow> logical_frame list \<Rightarrow> (logical_frame \<times> StackVisitor) list \<Rightarrow> nat list" where
  "frame_heights kCount thread tr = map (\<lambda>(fr, v). unat (fst (GetFrameHeight kCount thread v))) tr"

definition frame_ids ::
  "CountTransitions \<Rightarrow> logical_frame list \<Rightarrow> (logical_frame \<times> StackVisitor) list \<Rightarrow> nat list" where
  "frame_ids kCount thread tr = map (\<lambda>(fr, v). unat (fst (GetFrameId kCount thread v))) tr"

definition frame_depths :: "(logical_frame \<times> StackVisitor) list \<Rightarrow> nat list" where
  "frame_depths tr = map (\<lambda>(fr, v). unat (GetFrameDepth v)) tr"

section \<open>The diagnostic tool\<close>

text \<open>
  Page numbers, sizes and counts of \<^verbatim>\<open>dexdiag.cc\<close> are natural numbers; where the source
  subtracts two of them the order of the operands is checked or the wrap-around is written
  out. What the tool prints is kept as data: the characters of the page map, the rows of the
  statistics table. The two percentage columns of the table are floating-point values and are
  left out.
\<close>

subsection \<open>Section types\<close>

text \<open>
  The \<^verbatim>\<open>uint16_t\<close> section type. The enumerators are those of \<^verbatim>\<open>DexFile\<close> that the source
  names; \<open>UnlistedType\<close> stands for every other value.
\<close>

datatype DexType =
    kDexTypeHeaderItem
  | kDexTypeStringIdItem
  | kDexTypeTypeIdItem
  | kDexTypeProtoIdItem
  | kDexTypeFieldIdItem
  | kDexTypeMethodIdItem
  | kDexTypeClassDefItem
  | kDexTypeCallSiteIdItem
  | kDexTypeMethodHandleItem
  | kDexTypeMapList
  | kDexTypeTypeList
  | kDexTypeAnnotationSetRefList
  | kDexTypeAnnotationSetItem
  | kDexTypeClassDataItem
  | kDexTypeCodeItem
  | kDexTypeStringDataItem
  | kDexTypeDebugInfoItem
  | kDexTypeAnnotationItem
  | kDexTypeEncodedArrayItem
  | kDexTypeAnnotationsDirectoryItem
  | UnlistedType "16 word"

record DexSectionInfo =
  name :: string
  letter :: char

definition kDexSectionInfoMap :: "(DexType \<times> DexSectionInfo) list" where
  "kDexSectionInfoMap =
     [(kDexTypeHeaderItem, \<lparr> name = ''Header'', letter = CHR ''H'' \<rparr>),
      (kDexTypeStringIdItem, \<lparr> name = ''StringId'', letter = CHR ''S'' \<rparr>),
      (kDexTypeTypeIdItem, \<lparr> name = ''TypeId'', letter = CHR ''T'' \<rparr>),
      (kDexTypeProtoIdItem, \<lparr> name = ''ProtoId'', letter = CHR ''P'' \<rparr>),
      (kDexTypeFieldIdItem, \<lparr> name = ''FieldId'', letter = CHR ''F'' \<rparr>),
      (kDexTypeMethodIdItem, \<lparr> name = ''MethodId'', letter = CHR ''M'' \<rparr>),
      (kDexTypeClassDefItem, \<lparr> name = ''ClassDef'', letter = CHR ''C'' \<rparr>),
      (kDexTypeCallSiteIdItem, \<lparr> name = ''CallSiteId'', letter = CHR ''z'' \<rparr>),
      (kDexTypeMethodHandleItem, \<lparr> name = ''MethodHandle'', letter = CHR ''Z'' \<rparr>),
      (kDexTypeMapList, \<lparr> name = ''TypeMap'', letter = CHR ''L'' \<rparr>),
      (kDexTypeTypeList, \<lparr> name = ''TypeList'', letter = CHR ''t'' \<rparr>),
      (kDexTypeAnnotationSetRefList,
         \<lparr> name = ''AnnotationSetReferenceItem'', letter = CHR ''1'' \<rparr>),
      (kDexTypeAnnotationSetItem, \<lparr> name = ''AnnotationSetItem'', letter = CHR ''2'' \<rparr>),
      (kDexTypeClassDataItem, \<lparr> name = ''ClassData'', letter = CHR ''c'' \<rparr>),
      (kDexTypeCodeItem, \<lparr> name = ''CodeItem'', letter = CHR ''X'' \<rparr>),
      (kDexTypeStringDataItem, \<lparr> name = ''StringData'', letter = CHR ''s'' \<rparr>),
      (kDexTypeDebugInfoItem, \<lparr> name = ''DebugInfo'', letter = CHR ''D'' \<rparr>),
      (kDexTypeAnnotationItem, \<lparr> name = ''AnnotationItem'', letter = CHR ''3'' \<rparr>),
      (kDexTypeEncodedArrayItem, \<lparr> name = ''EncodedArrayItem'', letter = CHR ''E'' \<rparr>),
      (kDexTypeAnnotationsDirectoryItem,
         \<lparr> name = ''AnnotationsDirectoryItem'', letter = CHR ''4'' \<rparr>)]"

text \<open>\<^verbatim>\<open>dex_ir::DexFileSection\<close>, with the three fields the tool reads.\<close>

record DexFileSection =
  type :: DexType
  section_size :: nat
  offset :: nat

text \<open>
  \<^verbatim>\<open>kPageSize\<close> and the macro \<^verbatim>\<open>PM_PAGEMAP_PRESENT\<close> are declared outside the two source
  files; every function that uses them takes them in a record. The three flags are the file's
  \<^verbatim>\<open>static bool\<close> globals.
\<close>

record platform =
  kPageSize :: nat
  PM_PAGEMAP_PRESENT :: "64 word \<Rightarrow> bool"

record globals =
  g_show_key :: bool
  g_verbose :: bool
  g_show_statistics :: bool

definition kLineLength :: nat where
  "kLineLength = 32"

definition endl :: char where
  "endl = CHR 0x0A"

subsection \<open>PageCount\<close>

type_synonym PageCount = "DexType \<rightharpoonup> nat"

definition PageCount_ctor :: PageCount where
  "PageCount_ctor = map_of (map (\<lambda>(t, info). (t, 0)) kDexSectionInfoMap)"

text \<open>\<^verbatim>\<open>map_[type]++\<close>: \<^verbatim>\<open>operator[]\<close> inserts a zero for a key that is not there.\<close>

definition Increment :: "DexType \<Rightarrow> PageCount \<Rightarrow> PageCount" where
  "Increment t m = m(t \<mapsto> (case m t of None \<Rightarrow> 0 | Some c \<Rightarrow> c) + 1)"

text \<open>\<^verbatim>\<open>map_.at(type)\<close> throws for a key that is not there.\<close>

definition Get :: "DexType \<Rightarrow> PageCount \<Rightarrow> fault + nat" where
  "Get t m = (case m t of None \<Rightarrow> Inl KeyNotFound | Some c \<Rightarrow> Inr c)"

definition PageTypeChar :: "DexType \<Rightarrow> char" where
  "PageTypeChar t =
     (case map_of kDexSectionInfoMap t of None \<Rightarrow> CHR ''-'' | Some info \<Rightarrow> letter info)"

subsection \<open>Pages and sections\<close>

fun FindSectionTypeForPage :: "platform \<Rightarrow> nat \<Rightarrow> DexFileSection list \<Rightarrow> DexType" where
  "FindSectionTypeForPage pf page [] = kDexTypeHeaderItem"
| "FindSectionTypeForPage pf page (section # sections) =
     (let first_page_of_section = offset section div kPageSize pf
      in if section_size section = 0 then FindSectionTypeForPage pf page sections
         else if first_page_of_section \<le> page then type section
         else FindSectionTypeForPage pf page sections)"

text \<open>
  One turn of the loop of \<^verbatim>\<open>ProcessPageMap\<close>, on the counts and the characters printed so
  far. \<^verbatim>\<open>pagemap[page]\<close> is read without a check against the length of the table.
\<close>

definition ProcessPage ::
  "platform \<Rightarrow> globals \<Rightarrow> 64 word list \<Rightarrow> nat \<Rightarrow> DexFileSection list \<Rightarrow> nat \<Rightarrow>
   PageCount \<times> string \<Rightarrow> fault + (PageCount \<times> string)" where
  "ProcessPage pf g pagemap start sections page st =
     (if \<not> page < length pagemap then Inl OutOfBounds
      else let (page_counts, out) = st;
               (page_counts1, type_char) =
                 (if PM_PAGEMAP_PRESENT pf (pagemap ! page)
                  then let t = FindSectionTypeForPage pf page sections
                       in (Increment t page_counts, PageTypeChar t)
                  else (page_counts, CHR ''.''))
           in Inr (page_counts1,
                   if g_verbose g
                   then out @ [type_char] @
                        (if (page - start) mod kLineLength = kLineLength - 1 then [endl] else [])
                   else out))"

fun ProcessPages ::
  "platform \<Rightarrow> globals \<Rightarrow> 64 word list \<Rightarrow> nat \<Rightarrow> DexFileSection list \<Rightarrow> nat list \<Rightarrow>
   PageCount \<times> string \<Rightarrow> fault + (PageCount \<times> string)" where
  "ProcessPages pf g pagemap start sections [] st = Inr st"
| "ProcessPages pf g pagemap start sections (page # pages) st =
     and_then (ProcessPage pf g pagemap start sections page st)
       (ProcessPages pf g pagemap start sections pages)"

text \<open>
  \<^verbatim>\<open>(end - start) % kLineLength\<close> is computed in \<^verbatim>\<open>size_t\<close>; as \<open>kLineLength\<close> divides
  the modulus of \<^verbatim>\<open>size_t\<close>, the remainder is that of the integer difference.
\<close>

definition ProcessPageMap ::
  "platform \<Rightarrow> globals \<Rightarrow> 64 word list \<Rightarrow> nat \<Rightarrow> nat \<Rightarrow> DexFileSection list \<Rightarrow> PageCount \<Rightarrow>
   fault + (PageCount \<times> string)" where
  "ProcessPageMap pf g pagemap start end sections page_counts =
     and_then (ProcessPages pf g pagemap start sections [start ..< end] (page_counts, []))
       (\<lambda>(page_counts1, out).
          Inr (page_counts1,
               if g_verbose g \<and> (int end - int start) mod int kLineLength \<noteq> 0
               then out @ [endl] else out))"

subsection \<open>Statistics\<close>

record StatRow =
  row_name :: string
  row_resident :: nat
  row_mapped :: nat

record StatTable =
  rows :: "StatRow list"
  grand_total_resident :: nat
  grand_total_mapped :: nat

text \<open>
  The loop over the sections that prints one row each and adds up \<^verbatim>\<open>total_resident_pages\<close>;
  \<^verbatim>\<open>kDexSectionInfoMap.find(type)->second\<close> has no value for a type that is not a key.
\<close>

fun DisplayRows ::
  "PageCount \<Rightarrow> PageCount \<Rightarrow> DexFileSection list \<Rightarrow> StatRow list \<times> nat \<Rightarrow>
   fault + (StatRow list \<times> nat)" where
  "DisplayRows resident_pages mapped_pages [] acc = Inr acc"
| "DisplayRows resident_pages mapped_pages (section # sections) acc =
     (case map_of kDexSectionInfoMap (type section) of
        None \<Rightarrow> Inl KeyNotFound
      | Some section_info \<Rightarrow>
          and_then (Get (type section) resident_pages) (\<lambda>pages_resident.
          and_then (Get (type section) mapped_pages) (\<lambda>pages_mapped.
            DisplayRows resident_pages mapped_pages sections
              (fst acc @ [\<lparr> row_name = name section_info, row_resident = pages_resident,
                            row_mapped = pages_mapped \<rparr>],
               snd acc + pages_resident))))"

definition count_mapped_pages :: "platform \<Rightarrow> nat \<Rightarrow> nat \<Rightarrow> DexFileSection list \<Rightarrow> PageCount" where
  "count_mapped_pages pf start end sections =
     fold (\<lambda>page mapped_pages. Increment (FindSectionTypeForPage pf page sections) mapped_pages)
       [start ..< end] PageCount_ctor"

text \<open>The result is \<open>None\<close> when the function returns before it prints anything.\<close>

definition DisplayDexStatistics ::
  "platform \<Rightarrow> nat \<Rightarrow> nat \<Rightarrow> PageCount \<Rightarrow> DexFileSection list \<Rightarrow> fault + StatTable option" where
  "DisplayDexStatistics pf start end resident_pages sections =
     (if \<not> start \<le> end then Inl DCheckFailed
      else let total_mapped_pages = end - start
           in if total_mapped_pages = 0 then Inr None
              else let mapped_pages = count_mapped_pages pf start end sections
                   in and_then (DisplayRows resident_pages mapped_pages (rev sections) ([], 0))
                        (\<lambda>(printed, total_resident_pages).
                           Inr (Some \<lparr> rows = printed,
                                       grand_total_resident = total_resident_pages,
                                       grand_total_mapped = total_mapped_pages \<rparr>)))"

subsection \<open>One bytecode unit\<close>

text \<open>
  Modelled from the spec: \<^verbatim>\<open>RoundUp\<close>, a helper of the repository whose definition is missing.
  ``roundUp(start+size, pageSize)'': the least multiple of the second argument that is not
  below the first.
\<close>

definition RoundUp :: "nat \<Rightarrow> nat \<Rightarrow> nat" where
  "RoundUp x n = ((x + n - 1) div n) * n"

text \<open>
  A \<^verbatim>\<open>DexFile\<close> as the tool sees it: \<^verbatim>\<open>Begin()\<close>, \<^verbatim>\<open>Size()\<close>, \<^verbatim>\<open>GetLocation()\<close>, and the
  list that \<^verbatim>\<open>dex_ir::GetSortedDexFileSections(header, kSortDescending)\<close> returns for it.
\<close>

record DexFile =
  Begin :: addr
  Size :: nat
  GetLocation :: string
  GetSortedDexFileSections :: "DexFileSection list"

text \<open>
  What \<^verbatim>\<open>ProcessOneDexMapping\<close> prints for a unit: the two addresses of the \<^verbatim>\<open>DEX\<close> line,
  the page map, the table. \<open>first_page\<close> and \<open>end_page\<close> are the locals \<^verbatim>\<open>start\<close> and
  \<^verbatim>\<open>end\<close>.
\<close>

record DexReport =
  first_page :: nat
  end_page :: nat
  printed_range :: "nat \<times> nat"
  resident_counts :: PageCount
  page_chars :: string
  statistics :: "StatTable option"

text \<open>The result is \<open>None\<close> when the unit starts below the container and only the error
  message is printed. \<^verbatim>\<open>start\<close> is a page number counted from the start of the container;
  it is added to the size in bytes and handed to \<^verbatim>\<open>ProcessPageMap\<close> as the source has
  it.\<close>

definition ProcessOneDexMapping ::
  "platform \<Rightarrow> globals \<Rightarrow> 64 word list \<Rightarrow> nat \<Rightarrow> DexFile \<Rightarrow> nat \<Rightarrow> fault + DexReport option" where
  "ProcessOneDexMapping pf g pagemap map_start dex_file vdex_start =
     (let dex_file_start = Begin dex_file;
          dex_file_size = Size dex_file
      in if dex_file_start < vdex_start then Inr None
         else let start = (dex_file_start - vdex_start) div kPageSize pf; end =
                    RoundUp (start + dex_file_size) (kPageSize pf) div kPageSize pf;
                  sections = GetSortedDexFileSections dex_file
              in and_then (ProcessPageMap pf g pagemap start end sections PageCount_ctor)
                   (\<lambda>(section_resident_pages, out).
                      and_then (if g_show_statistics g
                                then DisplayDexStatistics pf start end section_resident_pages sections
                                else Inr None)
                        (\<lambda>table.
                           Inr (Some \<lparr> first_page = start, end_page = end,
                                       printed_range = (map_start + start * kPageSize pf,
                                                        map_start + end * kPageSize pf),
                                       resident_counts = section_resident_pages,
                                       page_chars = out,
                                       statistics = table \<rparr>))))"

subsection \<open>One mapping\<close>

text \<open>\<^verbatim>\<open>strstr(haystack, needle) != nullptr\<close>.\<close>

fun strstr :: "string \<Rightarrow> string \<Rightarrow> bool" where
  "strstr [] needle = (needle = [])"
| "strstr (c # cs) needle = (take (length needle) (c # cs) = needle \<or> strstr cs needle)"

text \<open>
  A \<^verbatim>\<open>VdexFile\<close> that was opened: \<^verbatim>\<open>Begin()\<close>, and what \<^verbatim>\<open>OpenAllDexFiles\<close> does, its
  result and the vector it leaves.
\<close>

record VdexFile =
  vdex_Begin :: addr
  OpenAllDexFiles :: "bool \<times> DexFile list"

text \<open>
  A \<^verbatim>\<open>pm_map_t\<close> with what the calls on it yield: \<^verbatim>\<open>pm_map_name\<close>, \<^verbatim>\<open>pm_map_start\<close>,
  \<^verbatim>\<open>pm_map_end\<close>, \<^verbatim>\<open>VdexFile::Open\<close> on its name (\<open>None\<close> for \<^verbatim>\<open>nullptr\<close>) and
  \<^verbatim>\<open>pm_map_pagemap\<close> (\<open>None\<close> for a result other than 0).
\<close>

record pm_map =
  pm_map_name :: string
  pm_map_start :: nat
  pm_map_end :: nat
  VdexFile_Open :: "VdexFile option"
  pm_map_pagemap :: "64 word list option"

fun ProcessDexFiles ::
  "platform \<Rightarrow> globals \<Rightarrow> 64 word list \<Rightarrow> nat \<Rightarrow> nat \<Rightarrow> DexFile list \<Rightarrow>
   fault + DexReport option list" where
  "ProcessDexFiles pf g pagemap map_start vdex_start [] = Inr []"
| "ProcessDexFiles pf g pagemap map_start vdex_start (dex_file # dex_files) =
     and_then (ProcessOneDexMapping pf g pagemap map_start dex_file vdex_start) (\<lambda>r.
     and_then (ProcessDexFiles pf g pagemap map_start vdex_start dex_files) (\<lambda>rs.
       Inr (r # rs)))"

definition DisplayMappingIfFromVdexFile ::
  "platform \<Rightarrow> globals \<Rightarrow> pm_map \<Rightarrow> fault + (bool \<times> DexReport option list)" where
  "DisplayMappingIfFromVdexFile pf g m =
     (if \<not> strstr (pm_map_name m) ''.vdex'' then Inr (True, [])
      else case VdexFile_Open m of
             None \<Rightarrow> Inr (False, [])
           | Some vdex \<Rightarrow>
               (let dex_files = snd (OpenAllDexFiles vdex)
                in case pm_map_pagemap m of
                     None \<Rightarrow> Inr (False, [])
                   | Some pagemap \<Rightarrow>
                       and_then (ProcessDexFiles pf g pagemap (pm_map_start m) (vdex_Begin vdex)
                                   dex_files)
                         (\<lambda>reports. Inr (True, reports))))"

subsection \<open>The command line\<close>

text \<open>
  What the tool asks of the C library and of \<^verbatim>\<open>libpagemap\<close>: \<^verbatim>\<open>strtol\<close> in base 10 (the
  value and the rest of the string at \<^verbatim>\<open>endptr\<close>), \<^verbatim>\<open>kill(pid, 0)\<close>,
  \<^verbatim>\<open>pm_kernel_create\<close>, \<^verbatim>\<open>pm_process_create\<close> and \<^verbatim>\<open>pm_process_maps\<close> with the mappings
  of the process. \<^verbatim>\<open>EXIT_FAILURE\<close> is 1.
\<close>

record World =
  strtol :: "string \<Rightarrow> int \<times> string"
  kill :: "int \<Rightarrow> int"
  pm_kernel_create :: int
  pm_process_create :: "int \<Rightarrow> int"
  pm_process_maps :: "int \<Rightarrow> int \<times> pm_map list"

definition EXIT_FAILURE :: int where
  "EXIT_FAILURE = 1"

text \<open>The loop over \<^verbatim>\<open>argv[1 .. argc - 2]\<close>; \<open>None\<close> when an argument is not a flag.\<close>

fun parse_flags :: "string list \<Rightarrow> globals \<Rightarrow> globals option" where
  "parse_flags [] g = Some g"
| "parse_flags (a # as) g =
     (if a = ''-k'' then parse_flags as (g\<lparr> g_show_key := True \<rparr>)
      else if a = ''-s'' then parse_flags as (g\<lparr> g_show_statistics := True \<rparr>)
      else if a = ''-v'' then parse_flags as (g\<lparr> g_verbose := True \<rparr>)
      else None)"

text \<open>The loop over the mappings; it stops at the first mapping that reports failure.\<close>

fun DisplayMappings ::
  "platform \<Rightarrow> globals \<Rightarrow> pm_map list \<Rightarrow> fault + (bool \<times> DexReport option list list)" where
  "DisplayMappings pf g [] = Inr (True, [])"
| "DisplayMappings pf g (m # ms) =
     and_then (DisplayMappingIfFromVdexFile pf g m) (\<lambda>(ok, out).
       if \<not> ok then Inr (False, [out])
       else and_then (DisplayMappings pf g ms) (\<lambda>(ok1, outs). Inr (ok1, out # outs)))"

text \<open>
  \<^verbatim>\<open>DexDiagMain\<close>: the exit code and what was printed for the mappings. \<open>argv\<close> is the
  argument vector, \<open>argc\<close> its length. The cast \<^verbatim>\<open>(pid_t)\<close> keeps the low 32 bits of the
  \<^verbatim>\<open>long\<close>. The texts of the usage message, of the error messages and of the letter key
  are not kept.
\<close>

definition DexDiagMain ::
  "platform \<Rightarrow> World \<Rightarrow> string list \<Rightarrow> fault + (int \<times> DexReport option list list)" where
  "DexDiagMain pf w argv =
     (let argc = length argv
      in if argc < 2 then Inr (EXIT_FAILURE, [])
         else case parse_flags (take (argc - 2) (drop 1 argv))
                     \<lparr> g_show_key = False, g_verbose = False, g_show_statistics = False \<rparr> of
                None \<Rightarrow> Inr (EXIT_FAILURE, [])
              | Some g \<Rightarrow>
                  (let (parsed, endptr) = strtol w (argv ! (argc - 1));
                       pid = sint (word_of_int parsed :: 32 word)
                   in if endptr \<noteq> [] \<or> kill w pid \<noteq> 0 then Inr (EXIT_FAILURE, [])
                      else if pm_kernel_create w \<noteq> 0 then Inr (EXIT_FAILURE, [])
                      else if pm_process_create w pid \<noteq> 0 then Inr (EXIT_FAILURE, [])
                      else let (rc, maps) = pm_process_maps w pid
                           in if rc \<noteq> 0 then Inr (EXIT_FAILURE, [])
                              else and_then (DisplayMappings pf g maps) (\<lambda>(ok, outs).
                                     if \<not> ok then Inr (EXIT_FAILURE, outs)
                                     else Inr (0, outs))))"

subsection \<open>What the claims about the tool speak of\<close>


definition pages_of :: "PageCount \<Rightarrow> DexType \<Rightarrow> nat" where
  "pages_of page_counts t = (case page_counts t of None \<Rightarrow> 0 | Some c \<Rightarrow> c)"

definition page_char :: "platform \<Rightarrow> 64 word list \<Rightarrow> DexFileSection list \<Rightarrow> nat \<Rightarrow> char" where
  "page_char pf pagemap sections page =
     (if PM_PAGEMAP_PRESENT pf (pagemap ! page)
      then PageTypeChar (FindSectionTypeForPage pf page sections) else CHR ''.'')"

definition resident_pages_of ::
  "platform \<Rightarrow> 64 word list \<Rightarrow> DexFileSection list \<Rightarrow> nat list \<Rightarrow> DexType \<Rightarrow> nat list" where
  "resident_pages_of pf pagemap sections pages t =
     filter (\<lambda>page. PM_PAGEMAP_PRESENT pf (pagemap ! page) \<and>
                    FindSectionTypeForPage pf page sections = t) pages"




definition report_statistics :: "fault + DexReport option \<Rightarrow> StatTable option" where
  "report_statistics res = (case res of Inr (Some r) \<Rightarrow> statistics r | _ \<Rightarrow> None)"

text \<open>
  The parts of the command line, the conditions under which the tool gives up before it
  looks at a mapping, the mappings it gives up on, and the exit code of a run that ends
  by returning from \<^verbatim>\<open>DexDiagMain\<close>.
\<close>

definition flag_arguments :: "string list \<Rightarrow> string list" where
  "flag_arguments argv = take (length argv - 2) (drop 1 argv)"

definition pid_argument :: "string list \<Rightarrow> string" where
  "pid_argument argv = argv ! (length argv - 1)"

definition pid_of :: "World \<Rightarrow> string list \<Rightarrow> int" where
  "pid_of w argv = sint (word_of_int (fst (strtol w (pid_argument argv))) :: 32 word)"

definition no_flags :: globals where
  "no_flags = \<lparr> g_show_key = False, g_verbose = False, g_show_statistics = False \<rparr>"

definition startup_fails :: "World \<Rightarrow> string list \<Rightarrow> bool" where
  "startup_fails w argv \<longleftrightarrow>
     length argv < 2 \<or>
     parse_flags (flag_arguments argv) no_flags = None \<or>
     snd (strtol w (pid_argument argv)) \<noteq> [] \<or>
     kill w (pid_of w argv) \<noteq> 0 \<or>
     pm_kernel_create w \<noteq> 0 \<or>
     pm_process_create w (pid_of w argv) \<noteq> 0 \<or>
     fst (pm_process_maps w (pid_of w argv)) \<noteq> 0"

definition mapping_fails :: "pm_map \<Rightarrow> bool" where
  "mapping_fails m \<longleftrightarrow>
     strstr (pm_map_name m) ''.vdex'' \<and> (VdexFile_Open m = None \<or> pm_map_pagemap m = None)"

definition exit_code :: "fault + (int \<times> DexReport option list list) \<Rightarrow> int option" where
  "exit_code res = (case res of Inl e \<Rightarrow> None | Inr (code, outs) \<Rightarrow> Some code)"

text \<open>The visits of a walk that advance the depth, and a callback that never stops the walk.\<close>

definition counted_visits ::
  "CountTransitions \<Rightarrow> (logical_frame \<times> StackVisitor) list \<Rightarrow> (logical_frame \<times> StackVisitor) list" where
  "counted_visits kCount tr =
     filter (\<lambda>(fr, s). counts_toward_depth kCount (walk_kind s) fr) tr"

definition visit_all :: "StackVisitor \<Rightarrow> bool" where
  "visit_all v = True"

section \<open>Example inputs\<close>



definition frame_with_references :: ShadowFrame where
  "frame_with_references =
     \<lparr> link = 0, art_method = 4096, result_register = 0, dex_pc_ptr = 0,
       code_item = None, lock_count_data = \<lparr> monitors = None \<rparr>,
       number_of_vregs = 4, dex_pc = 0, cached_hotness_countdown = 0, hotness_countdown = 0,
       vregs = [5, 6, 7, 8], References = [5, 6, 7, 8] \<rparr>"

definition frame_at_pc7 :: ShadowFrame where
  "frame_at_pc7 =
     \<lparr> link = 0, art_method = 4096, result_register = 0, dex_pc_ptr = 8206,
       code_item = Some \<lparr> insns = 8192 \<rparr>, lock_count_data = \<lparr> monitors = None \<rparr>,
       number_of_vregs = 4, dex_pc = 0, cached_hotness_countdown = 0, hotness_countdown = 0,
       vregs = [0, 0, 0, 0], References = [0, 0, 0, 0] \<rparr>"

text \<open>
  Scenario C: pages of 4096 bytes, residency in bit 63 of an entry of the table, a table of six
  pages of which pages 0, 2 and 5 are resident, and a unit of six pages with three sections.
\<close>

definition platform4k :: platform where
  "platform4k = \<lparr> kPageSize = 4096, PM_PAGEMAP_PRESENT = (\<lambda>entry. bit entry 63) \<rparr>"

definition pagemap_025 :: "64 word list" where
  "pagemap_025 = [0x8000000000000000, 0, 0x8000000000000000, 0, 0, 0x8000000000000000]"

definition three_sections :: "DexFileSection list" where
  "three_sections =
     [\<lparr> type = kDexTypeStringDataItem, section_size = 9000, offset = 12288 \<rparr>,
      \<lparr> type = kDexTypeTypeIdItem, section_size = 400, offset = 4096 \<rparr>,
      \<lparr> type = kDexTypeHeaderItem, section_size = 112, offset = 0 \<rparr>]"

definition dex_of_six_pages :: DexFile where
  "dex_of_six_pages =
     \<lparr> Begin = 65536, Size = 24576, GetLocation = ''classes.dex'',
       GetSortedDexFileSections = three_sections \<rparr>"

definition flags_sv :: globals where
  "flags_sv = \<lparr> g_show_key = False, g_verbose = True, g_show_statistics = True \<rparr>"

definition scenario_C_table :: StatTable where
  "scenario_C_table =
     \<lparr> rows = [\<lparr> row_name = ''Header'', row_resident = 1, row_mapped = 1 \<rparr>,
               \<lparr> row_name = ''TypeId'', row_resident = 1, row_mapped = 2 \<rparr>,
               \<lparr> row_name = ''StringData'', row_resident = 1, row_mapped = 3 \<rparr>],
       grand_total_resident = 3, grand_total_mapped = 6 \<rparr>"

text \<open>
  A process with mappings: one backed by a container that opens and holds the unit of
  scenario C, the same with a container that does not open, and one that is not backed by a
  container. Process 1234 exists, process 77 does not.
\<close>

definition vdex_mapping :: pm_map where
  "vdex_mapping =
     \<lparr> pm_map_name = ''/data/app/base.vdex'', pm_map_start = 0, pm_map_end = 24576,
       VdexFile_Open = Some \<lparr> vdex_Begin = 65536, OpenAllDexFiles = (True, [dex_of_six_pages]) \<rparr>,
       pm_map_pagemap = Some pagemap_025 \<rparr>"

definition unopened_mapping :: pm_map where
  "unopened_mapping = vdex_mapping\<lparr> VdexFile_Open := None \<rparr>"

definition library_mapping :: pm_map where
  "library_mapping =
     \<lparr> pm_map_name = ''/system/lib64/libc.so'', pm_map_start = 1048576, pm_map_end = 2097152,
       VdexFile_Open = None, pm_map_pagemap = None \<rparr>"

definition world_of :: "pm_map list \<Rightarrow> World" where
  "world_of maps =
     \<lparr> strtol = (\<lambda>s. if s = ''1234'' then (1234, []) else if s = ''77'' then (77, []) else (0, s)),
       kill = (\<lambda>pid. if pid = 1234 then 0 else - 1),
       pm_kernel_create = 0,
       pm_process_create = (\<lambda>pid. 0),
       pm_process_maps = (\<lambda>pid. (0, maps)) \<rparr>"

definition argv_sv :: "string list" where
  "argv_sv = [''dexdiag'', ''-s'', ''-v'', ''1234'']"

text \<open>A stack of three interpreter frames, and one with an inlined frame, its compiled frame,
  a transition and an interpreter frame.\<close>

definition three_interpreter_frames :: "logical_frame list" where
  "three_interpreter_frames = [InterpreterFrame 4096, InterpreterFrame 8192, InterpreterFrame 12288]"

definition mixed_thread :: "logical_frame list" where
  "mixed_thread = [InlinedFrame 4096 1, CompiledFrame 4096, TransitionFrame, InterpreterFrame 8192]"

section \<open>Auxiliary facts\<close>

lemma and_then_Inr [simp]: "and_then (Inr x) k = k x"
  by (simp add: and_then_def)

lemma and_then_Inl [simp]: "and_then (Inl e) k = Inl e"
  by (simp add: and_then_def)

lemma and_then_eq_Inr: "and_then r k = Inr y \<longleftrightarrow> (\<exists>x. r = Inr x \<and> k x = Inr y)"
  by (cases r) simp_all

lemmas setters =
  SetVReg_def SetVRegFloat_def SetVRegLong_def SetVRegDouble_def SetVRegReference_def

section \<open>Properties of ShadowFrame\<close>

subsection \<open>Writes of non-reference values\<close>

text \<open>
  C1. With \<^verbatim>\<open>kMovingCollector\<close> set, \<^verbatim>\<open>SetVReg(i, v)\<close> and \<^verbatim>\<open>SetVRegFloat(i, v)\<close> on a register
  of the frame succeed and leave shadow slot \<open>i\<close> null; \<^verbatim>\<open>SetVRegLong(i, v)\<close> and
  \<^verbatim>\<open>SetVRegDouble(i, v)\<close> on a register pair of the frame succeed and leave shadow slots \<open>i\<close>
  and \<open>i + 1\<close> null. In a frame of four registers, after \<^verbatim>\<open>SetVRegReference(0, X)\<close> and then
  \<^verbatim>\<open>SetVReg(0, 42)\<close>, \<^verbatim>\<open>GetVRegReference(0)\<close> is null.
\<close>

theorem SetVReg_clears_shadow_slots:
  "(i < NumberOfVRegs f \<and> frame_storage_ok f \<longrightarrow>
      (\<exists>f'. SetVReg True i v f = Inr f' \<and> References f' ! i = null_ref \<and>
             GetVRegReference i f' = Inr null_ref) \<and>
      (\<exists>f'. SetVRegFloat True i v f = Inr f' \<and> References f' ! i = null_ref \<and>
             GetVRegReference i f' = Inr null_ref)) \<and>
   (i + 1 < NumberOfVRegs f \<and> frame_storage_ok f \<longrightarrow>
      (\<exists>f'. SetVRegLong True i w f = Inr f' \<and>
             References f' ! i = null_ref \<and> References f' ! (i + 1) = null_ref \<and>
             GetVRegReference i f' = Inr null_ref \<and> GetVRegReference (i + 1) f' = Inr null_ref) \<and>
      (\<exists>f'. SetVRegDouble True i w f = Inr f' \<and>
             References f' ! i = null_ref \<and> References f' ! (i + 1) = null_ref \<and>
             GetVRegReference i f' = Inr null_ref \<and> GetVRegReference (i + 1) f' = Inr null_ref)) \<and>
   and_then (and_then (and_then (CreateShadowFrameImpl 4 lnk m pc) (SetVRegReference 0 X))
      (SetVReg True 0 42)) (GetVRegReference 0) = Inr null_ref"
  by (simp add: setters GetVRegReference_def HasReferenceArray_def NumberOfVRegs_def
      frame_storage_ok_def Let_def CreateShadowFrameImpl_def ShadowFrame_ctor_def)

theorem SetVReg_clears_shadow_slots_witness:
  "SetVReg True 1 9 frame_with_references =
     Inr (frame_with_references\<lparr> vregs := [5, 9, 7, 8], References := [5, 0, 7, 8] \<rparr>) \<and>
   and_then (SetVRegFloat True 1 9 frame_with_references) (GetVRegReference 1) = Inr null_ref \<and>
   SetVRegLong True 1 0x0000000B0000000A frame_with_references =
     Inr (frame_with_references\<lparr> vregs := [5, 10, 11, 8], References := [5, 0, 0, 8] \<rparr>) \<and>
   and_then (SetVRegDouble True 1 0x0000000B0000000A frame_with_references) (GetVRegReference 2)
     = Inr null_ref"
proof -
  have n: "1 < NumberOfVRegs frame_with_references \<and> frame_storage_ok frame_with_references"
    by code_simp
  have w: "1 + 1 < NumberOfVRegs frame_with_references \<and> frame_storage_ok frame_with_references"
    by code_simp
  have a: "SetVReg True 1 9 frame_with_references =
     Inr (frame_with_references\<lparr> vregs := [5, 9, 7, 8], References := [5, 0, 7, 8] \<rparr>)"
    by code_simp
  have b: "SetVRegLong True 1 0x0000000B0000000A frame_with_references =
     Inr (frame_with_references\<lparr> vregs := [5, 10, 11, 8], References := [5, 0, 0, 8] \<rparr>)"
    by code_simp
  from SetVReg_clears_shadow_slots [of 1 frame_with_references 9 "0x0000000B0000000A" 0 0 0 0] n w
  have "(\<exists>f'. SetVRegFloat True 1 9 frame_with_references = Inr f' \<and>
               GetVRegReference 1 f' = Inr null_ref) \<and>
        (\<exists>f'. SetVRegDouble True 1 0x0000000B0000000A frame_with_references = Inr f' \<and>
               GetVRegReference (1 + 1) f' = Inr null_ref)"
    by blast
  then have "and_then (SetVRegFloat True 1 9 frame_with_references) (GetVRegReference 1)
               = Inr null_ref \<and>
             and_then (SetVRegDouble True 1 0x0000000B0000000A frame_with_references)
               (GetVRegReference 2) = Inr null_ref"
    by (auto simp: numeral_2_eq_2)
  with a b show ?thesis by simp
qed

subsection \<open>Reading back what was written\<close>

lemma GetVReg_SetVReg:
  assumes "i < NumberOfVRegs f" and "frame_storage_ok f"
  shows "and_then (SetVReg k i val f) (GetVReg i) = Inr val"
  using assms
  by (simp add: SetVReg_def GetVReg_def Let_def NumberOfVRegs_def frame_storage_ok_def)

lemma halves_of_long:
  fixes val :: "64 word"
  shows "word_cat (ucast (drop_bit 32 val) :: 32 word) (ucast val :: 32 word) = val"
  by (rule bit_word_eqI) (auto simp: bit_word_cat_iff bit_ucast_iff bit_drop_bit_eq)

lemma GetVRegLong_SetVRegLong:
  assumes "i + 1 < NumberOfVRegs f" and "frame_storage_ok f"
  shows "and_then (SetVRegLong k i val f) (GetVRegLong i) = Inr val"
  using assms
  by (simp add: SetVRegLong_def GetVRegLong_def Let_def NumberOfVRegs_def frame_storage_ok_def
      HasReferenceArray_def halves_of_long)

lemma wide_write_needs_two_slots:
  "i + 1 = NumberOfVRegs f \<Longrightarrow> SetVRegLong k i val f = Inl OutOfBounds"
  by (simp add: SetVRegLong_def)

subsection \<open>The shadow slots and the raw slots\<close>









subsection \<open>The reference array is always there\<close>

text \<open>
  C10. \<^verbatim>\<open>HasReferenceArray()\<close> holds of every frame. So \<^verbatim>\<open>GetVRegReference(i)\<close> with
  \<open>i < N\<close> is the shadow slot, never the raw slot, and \<^verbatim>\<open>Contains\<close> compares its argument
  with the addresses of the first and the last shadow slot, never with those of the raw
  slots: in a frame with registers, the address of shadow slot \<open>k\<close> is contained exactly
  when \<open>k < N\<close>. \<^verbatim>\<open>CreateShadowFrameImpl\<close> passes \<^verbatim>\<open>has_reference_array = true\<close>.
\<close>

theorem reference_array_always_present:
  "HasReferenceArray f \<and>
   GetVRegReference i f = (if i < NumberOfVRegs f then Inr (References f ! i) else Inl DCheckFailed) \<and>
   Contains va sr f p =
     (References_addr va f \<le> p \<and> p \<le> References_addr va f + sr * unat (number_of_vregs f - 1)) \<and>
   (0 < NumberOfVRegs f \<and> 0 < sr \<longrightarrow>
      Contains va sr f (References_addr va f + sr * k) = (k < NumberOfVRegs f)) \<and>
   (\<exists>f'. CreateShadowFrameImpl n lnk m pc = Inr f' \<and> HasReferenceArray f')"
proof -
  have "Contains va sr f (References_addr va f + sr * k) = (k < NumberOfVRegs f)"
    if pos: "0 < NumberOfVRegs f" and sr: "0 < sr"
  proof -
    from pos have "number_of_vregs f \<noteq> 0" by (auto simp: NumberOfVRegs_def)
    then have "unat (number_of_vregs f - 1) = NumberOfVRegs f - 1"
      by (simp add: unat_minus_one NumberOfVRegs_def)
    with pos sr show ?thesis
      by (auto simp: Contains_def HasReferenceArray_def)
  qed
  then show ?thesis
    by (simp add: HasReferenceArray_def GetVRegReference_def Contains_def
        CreateShadowFrameImpl_def ShadowFrame_ctor_def)
qed

theorem reference_array_always_present_witness:
  "GetVRegReference 2 (frame_with_references\<lparr> vregs := [1, 2, 3, 4] \<rparr>) = Inr 7 \<and>
   Contains 1000 4 frame_with_references (1016 + 4 * 3) \<and>
   \<not> Contains 1000 4 frame_with_references (1016 + 4 * 4) \<and>
   \<not> Contains 1000 4 frame_with_references 1012"
  using reference_array_always_present [of "frame_with_references\<lparr> vregs := [1, 2, 3, 4] \<rparr>" 2 1000 4 1012 3 0 0 0 0]
    reference_array_always_present [of frame_with_references 2 1000 4 1012 3 0 0 0 0]
    reference_array_always_present [of frame_with_references 2 1000 4 1012 4 0 0 0 0]
  by (simp add: frame_with_references_def NumberOfVRegs_def References_addr_def)

subsection \<open>Dex pc\<close>

text \<open>
  C6. \<^verbatim>\<open>GetDexPC\<close> is the stored index when \<^verbatim>\<open>dex_pc_ptr_\<close> is null; otherwise it is the
  distance of \<^verbatim>\<open>dex_pc_ptr_\<close> from \<^verbatim>\<open>code_item_->insns_\<close> in 16-bit code units.
  \<^verbatim>\<open>SetDexPC(pc)\<close> stores the index and sets the pointer to null, so \<^verbatim>\<open>GetDexPC\<close> then
  yields \<open>pc\<close>, also after the pointer form had been set.
\<close>

theorem GetDexPC_index_or_pointer:
  "(dex_pc_ptr f = nullptr \<longrightarrow> GetDexPC f = Inr (dex_pc f)) \<and>
   (dex_pc_ptr f \<noteq> nullptr \<and> code_item f = Some c \<and> dex_pc_ptr f = insns c + 2 * k
      \<longrightarrow> GetDexPC f = Inr (of_nat k)) \<and>
   dex_pc (SetDexPC pc f) = pc \<and>
   dex_pc_ptr (SetDexPC pc f) = nullptr \<and>
   GetDexPC (SetDexPC pc f) = Inr pc \<and>
   GetDexPC (SetDexPC pc (SetDexPCPtr p f)) = Inr pc"
  by (simp add: GetDexPC_def SetDexPC_def SetDexPCPtr_def)

theorem GetDexPC_index_or_pointer_witness:
  "dex_pc_ptr frame_at_pc7 \<noteq> nullptr \<and> GetDexPC frame_at_pc7 = Inr 7 \<and>
   dex_pc_ptr (SetDexPC 3 frame_at_pc7) = nullptr \<and> GetDexPC (SetDexPC 3 frame_at_pc7) = Inr 3"
  using GetDexPC_index_or_pointer [of frame_at_pc7 "\<lparr> insns = 8192 \<rparr>" 7 3]
    GetDexPC_index_or_pointer [of "SetDexPC 3 frame_at_pc7" "\<lparr> insns = 8192 \<rparr>" 7 3]
  by (simp add: frame_at_pc7_def nullptr_def SetDexPC_def)

subsection \<open>Size of a frame\<close>

lemma ComputeSize_of_nat:
  fixes hdr sr :: "'a::len word" and n :: "32 word"
  shows "ComputeSize hdr sr n = of_nat (unat hdr + unat n * 4 + unat n * unat sr)"
proof -
  have n: "(ucast n :: 'a word) = of_nat (unat n)" by simp
  have h: "hdr = of_nat (unat hdr)" and s: "sr = of_nat (unat sr)" by simp_all
  show ?thesis
    unfolding ComputeSize_def n
    by (subst h, subst s) (simp only: of_nat_add of_nat_mult of_nat_numeral mult.commute)
qed

lemma memset_length_of_nat:
  fixes sr :: "'a::len word" and n :: "32 word"
  shows "ctor_memset_length sr n True = of_nat (unat n * (4 + unat sr))"
proof -
  have n: "(ucast n :: 'a word) = of_nat (unat n)" by simp
  have s: "sr = of_nat (unat sr)" by simp
  show ?thesis
    unfolding ctor_memset_length_def n
    by (subst s) (simp only: of_nat_add of_nat_mult of_nat_numeral if_True)
qed

lemma frame_bytes_bound:
  fixes hdr sr :: "'a::len word" and n :: "32 word"
  assumes fits: "unat hdr + (4 + unat sr) * 2 ^ 32 \<le> 2 ^ LENGTH('a)"
  shows "unat hdr + unat n * (4 + unat sr) < 2 ^ LENGTH('a)"
proof -
  have "unat n < 2 ^ 32" using unsigned_less [of n, where 'a = nat] by simp
  then have "unat n * (4 + unat sr) < 2 ^ 32 * (4 + unat sr)"
    by (intro mult_strict_right_mono) simp_all
  then show ?thesis using fits by (simp add: mult.commute)
qed

text \<open>
  C3. \<^verbatim>\<open>ComputeSize(N)\<close> is \<^verbatim>\<open>sizeof(ShadowFrame)\<close> plus \<open>4 * N\<close> plus
  \<^verbatim>\<open>sizeof(StackReference<mirror::Object>)\<close> times \<open>N\<close>, and it is the size of the header
  plus the number of bytes the constructor zeroes, both computed in \<^verbatim>\<open>size_t\<close>. Where
  \<^verbatim>\<open>size_t\<close> holds the sum, which it does for every \<open>N\<close> once it holds the header plus
  \<open>2 ^ 32\<close> register slots, the same holds of the numbers of bytes; the bytes that
  construction touches end at or before \<^verbatim>\<open>ComputeSize(N)\<close>, exactly there when the register
  array starts where the header ends; and the buffer of \<^verbatim>\<open>CreateDeoptimizedFrame\<close> has the
  size of the header plus the two arrays of the frame made in it.
\<close>

theorem ComputeSize_is_header_plus_arrays:
  fixes hdr sr off :: "'a::len word" and n :: "32 word"
  shows "ComputeSize hdr sr n = hdr + 4 * ucast n + sr * ucast n \<and>
         ComputeSize hdr sr n = hdr + ctor_memset_length sr n True \<and>
         (unat hdr + (4 + unat sr) * 2 ^ 32 \<le> 2 ^ LENGTH('a) \<longrightarrow>
            unat hdr + unat n * (4 + unat sr) < 2 ^ LENGTH('a)) \<and>
         (unat hdr + unat n * (4 + unat sr) < 2 ^ LENGTH('a) \<and> unat off \<le> unat hdr \<longrightarrow>
            unat (ComputeSize hdr sr n) = unat hdr + unat n * 4 + unat n * unat sr \<and>
            unat (ComputeSize hdr sr n) = unat hdr + unat (ctor_memset_length sr n True) \<and>
            ctor_extent hdr off sr n \<le> unat (ComputeSize hdr sr n) \<and>
            (off = hdr \<longrightarrow> ctor_extent hdr off sr n = unat (ComputeSize hdr sr n)) \<and>
            (\<forall>f. snd (CreateDeoptimizedFrame hdr sr n lnk m pc) = Inr f \<longrightarrow>
                 unat (fst (CreateDeoptimizedFrame hdr sr n lnk m pc)) =
                   unat hdr + 4 * length (vregs f) + unat sr * length (References f)))"
proof -
  have eq: "ComputeSize hdr sr n = hdr + ctor_memset_length sr n True"
    by (simp add: ComputeSize_def ctor_memset_length_def algebra_simps)
  have fits: "unat hdr + unat n * (4 + unat sr) < 2 ^ LENGTH('a)"
    if "unat hdr + (4 + unat sr) * 2 ^ 32 \<le> 2 ^ LENGTH('a)"
    using that by (rule frame_bytes_bound)
  have rest: "unat (ComputeSize hdr sr n) = unat hdr + unat n * 4 + unat n * unat sr \<and>
            unat (ComputeSize hdr sr n) = unat hdr + unat (ctor_memset_length sr n True) \<and>
            ctor_extent hdr off sr n \<le> unat (ComputeSize hdr sr n) \<and>
            (off = hdr \<longrightarrow> ctor_extent hdr off sr n = unat (ComputeSize hdr sr n)) \<and>
            (\<forall>f. snd (CreateDeoptimizedFrame hdr sr n lnk m pc) = Inr f \<longrightarrow>
                 unat (fst (CreateDeoptimizedFrame hdr sr n lnk m pc)) =
                   unat hdr + 4 * length (vregs f) + unat sr * length (References f))"
    if lt: "unat hdr + unat n * (4 + unat sr) < 2 ^ LENGTH('a)" and off: "unat off \<le> unat hdr"
  proof -
    have "unat (ComputeSize hdr sr n) =
            (unat hdr + unat n * 4 + unat n * unat sr) mod 2 ^ LENGTH('a)"
      by (simp only: ComputeSize_of_nat unat_of_nat)
    moreover have "unat hdr + unat n * 4 + unat n * unat sr < 2 ^ LENGTH('a)"
      using lt by (simp add: algebra_simps)
    ultimately have size: "unat (ComputeSize hdr sr n) = unat hdr + unat n * 4 + unat n * unat sr"
      by simp
    have "unat (ctor_memset_length sr n True) = (unat n * (4 + unat sr)) mod 2 ^ LENGTH('a)"
      by (simp only: memset_length_of_nat unat_of_nat)
    moreover have "unat n * (4 + unat sr) < 2 ^ LENGTH('a)"
      using lt by simp
    ultimately have len: "unat (ctor_memset_length sr n True) = unat n * (4 + unat sr)"
      by simp
    have sum: "unat (ComputeSize hdr sr n) = unat hdr + unat (ctor_memset_length sr n True)"
      using size len by (simp add: algebra_simps)
    have ext: "ctor_extent hdr off sr n \<le> unat (ComputeSize hdr sr n)"
      using off sum by (simp add: ctor_extent_def)
    have exact: "off = hdr \<longrightarrow> ctor_extent hdr off sr n = unat (ComputeSize hdr sr n)"
      using sum by (simp add: ctor_extent_def)
    have frame: "\<forall>f. snd (CreateDeoptimizedFrame hdr sr n lnk m pc) = Inr f \<longrightarrow>
              unat (fst (CreateDeoptimizedFrame hdr sr n lnk m pc)) =
                unat hdr + 4 * length (vregs f) + unat sr * length (References f)"
      using size
      by (auto simp: CreateDeoptimizedFrame_def CreateShadowFrameImpl_def ShadowFrame_ctor_def)
    show ?thesis using size sum ext exact frame by blast
  qed
  have def: "ComputeSize hdr sr n = hdr + 4 * ucast n + sr * ucast n"
    by (simp add: ComputeSize_def)
  show ?thesis using def eq fits rest by blast
qed

theorem ComputeSize_is_header_plus_arrays_witness:
  "unat (ComputeSize (64 :: 64 word) 4 3) = 64 + 3 * 4 + 3 * 4 \<and>
   unat (ctor_memset_length (4 :: 64 word) 3 True) = 24 \<and>
   ctor_extent (64 :: 64 word) 60 4 3 = 84 \<and>
   ctor_extent (36 :: 32 word) 36 4 3 = unat (ComputeSize (36 :: 32 word) 4 3)"
proof -
  have a: "unat (64 :: 64 word) + unat (3 :: 32 word) * (4 + unat (4 :: 64 word)) < 2 ^ LENGTH(64)
           \<and> unat (60 :: 64 word) \<le> unat (64 :: 64 word)" by simp
  have b: "unat (36 :: 32 word) + unat (3 :: 32 word) * (4 + unat (4 :: 32 word)) < 2 ^ LENGTH(32)
           \<and> unat (36 :: 32 word) \<le> unat (36 :: 32 word)" by simp
  have e: "ctor_extent (64 :: 64 word) 60 4 3 = 84"
    by (simp add: ctor_extent_def ctor_memset_length_def)
  have l: "unat (ctor_memset_length (4 :: 64 word) 3 True) = 24"
    by (simp add: ctor_memset_length_def)
  from ComputeSize_is_header_plus_arrays [of "64 :: 64 word" 4 3 60 0 0 0] a
  have "unat (ComputeSize (64 :: 64 word) 4 3) = unat (64 :: 64 word) + unat (3 :: 32 word) * 4
          + unat (3 :: 32 word) * unat (4 :: 64 word)" by blast
  moreover from ComputeSize_is_header_plus_arrays [of "36 :: 32 word" 4 3 36 0 0 0] b
  have "ctor_extent (36 :: 32 word) 36 4 3 = unat (ComputeSize (36 :: 32 word) 4 3)" by blast
  ultimately show ?thesis using e l by simp
qed

section \<open>Properties of LockCountData\<close>

text \<open>
  C5. \<^verbatim>\<open>CheckAllMonitorsReleasedOrThrow\<close> reports failure exactly when the ledger is not
  empty, and then \<^verbatim>\<open>IllegalMonitorStateException\<close> is pending; on an empty ledger it leaves
  the thread as it was. Starting from an empty ledger with no exception pending, after locking
  \<open>X\<close> twice and unlocking it once the check raises; after unlocking it a second time the
  check does not raise.
\<close>

theorem CheckAllMonitorsReleasedOrThrow_raises_iff_nonempty:
  "(\<not> snd (CheckAllMonitorsReleasedOrThrow self d) \<longleftrightarrow> ledger d \<noteq> []) \<and>
   (ledger d \<noteq> [] \<longrightarrow>
      pending_exception (fst (CheckAllMonitorsReleasedOrThrow self d)) = Some IllegalMonitorStateException) \<and>
   (ledger d = [] \<longrightarrow> fst (CheckAllMonitorsReleasedOrThrow self d) = self) \<and>
   (pending_exception self = None \<and> ledger d = [] \<longrightarrow>
      check_after [Lock X, Lock X, Unlock X] (self, d) =
        (self\<lparr> pending_exception := Some IllegalMonitorStateException \<rparr>, False) \<and>
      check_after [Lock X, Lock X, Unlock X, Unlock X] (self, d) = (self, True))"
  by (auto simp: CheckAllMonitorsReleasedOrThrow_def check_after_def run_ledger_ops_def
      AddMonitor_def RemoveMonitorOrThrow_def ledger_def remove_most_recent_def
      split: option.splits)

theorem CheckAllMonitorsReleasedOrThrow_raises_iff_nonempty_witness:
  "check_after [Lock 7, Lock 7, Unlock 7] (\<lparr> pending_exception = None \<rparr>, \<lparr> monitors = None \<rparr>) =
     (\<lparr> pending_exception = Some IllegalMonitorStateException \<rparr>, False) \<and>
   check_after [Lock 7, Lock 7, Unlock 7, Unlock 7]
     (\<lparr> pending_exception = None \<rparr>, \<lparr> monitors = None \<rparr>) = (\<lparr> pending_exception = None \<rparr>, True)"
proof -
  have "pending_exception \<lparr> pending_exception = None \<rparr> = None \<and> ledger \<lparr> monitors = None \<rparr> = []"
    by (simp add: ledger_def)
  with CheckAllMonitorsReleasedOrThrow_raises_iff_nonempty
         [of "\<lparr> pending_exception = None \<rparr>" "\<lparr> monitors = None \<rparr>" 7]
  show ?thesis by simp
qed

section \<open>Properties of the diagnostic tool\<close>

subsection \<open>Attribution of pages\<close>




lemma pages_of_Increment:
  "pages_of (Increment t c) u = pages_of c u + (if u = t then 1 else 0)"
  by (simp add: pages_of_def Increment_def)

lemma PageTypeChar_not_endl: "PageTypeChar t \<noteq> endl"
  by (cases t) (simp_all add: PageTypeChar_def kDexSectionInfoMap_def endl_def)

lemma page_char_not_endl: "page_char pf pagemap sections page \<noteq> endl"
  by (simp add: page_char_def PageTypeChar_not_endl) (simp add: endl_def)

lemma ProcessPage_Inr:
  assumes "ProcessPage pf g pagemap start sections page (c, out) = Inr (c', out')"
  shows "page < length pagemap"
    and "\<And>t. pages_of c' t = pages_of c t +
            length (resident_pages_of pf pagemap sections [page] t)"
    and "g_verbose g \<Longrightarrow> filter (\<lambda>ch. ch \<noteq> endl) out' =
            filter (\<lambda>ch. ch \<noteq> endl) out @ [page_char pf pagemap sections page]"
    and "\<not> g_verbose g \<Longrightarrow> out' = out"
  using assms page_char_not_endl [of pf pagemap sections page]
  by (auto simp: ProcessPage_def Let_def pages_of_Increment resident_pages_of_def page_char_def
      split: if_splits)

lemma ProcessPages_Inr:
  assumes "ProcessPages pf g pagemap start sections pages (c, out) = Inr (c', out')"
  shows "(\<forall>page \<in> set pages. page < length pagemap) \<and>
         (\<forall>t. pages_of c' t = pages_of c t +
            length (resident_pages_of pf pagemap sections pages t)) \<and>
         (g_verbose g \<longrightarrow> filter (\<lambda>ch. ch \<noteq> endl) out' =
            filter (\<lambda>ch. ch \<noteq> endl) out @ map (page_char pf pagemap sections) pages) \<and>
         (\<not> g_verbose g \<longrightarrow> out' = out)"
  using assms
proof (induction pages arbitrary: c out)
  case Nil
  then show ?case by (simp add: resident_pages_of_def)
next
  case (Cons page pages)
  from Cons.prems obtain c1 out1 where
    one: "ProcessPage pf g pagemap start sections page (c, out) = Inr (c1, out1)" and
    rest: "ProcessPages pf g pagemap start sections pages (c1, out1) = Inr (c', out')"
    by (auto simp: and_then_eq_Inr)
  note h = ProcessPage_Inr [OF one]
  note ih = Cons.IH [OF rest]
  have split: "\<And>t. length (resident_pages_of pf pagemap sections (page # pages) t) =
      length (resident_pages_of pf pagemap sections [page] t) +
      length (resident_pages_of pf pagemap sections pages t)"
    by (simp add: resident_pages_of_def)
  show ?case
    using h(1) h(2) h(3) h(4) ih split by (auto simp: )
qed

lemma ProcessPages_total:
  "\<forall>page \<in> set pages. page < length pagemap \<Longrightarrow>
   \<exists>r. ProcessPages pf g pagemap start sections pages st = Inr r"
proof (induction pages arbitrary: st)
  case Nil
  then show ?case by simp
next
  case (Cons page pages)
  then have "page < length pagemap" by simp
  then have "\<exists>st1. ProcessPage pf g pagemap start sections page st = Inr st1"
    by (cases st) (simp add: ProcessPage_def Let_def split: prod.splits)
  then obtain st1 where "ProcessPage pf g pagemap start sections page st = Inr st1" ..
  moreover from Cons obtain r where "ProcessPages pf g pagemap start sections pages st1 = Inr r"
    by fastforce
  ultimately show ?case by auto
qed

lemma pages_of_ctor: "pages_of PageCount_ctor t = 0"
proof (cases "PageCount_ctor t")
  case None
  then show ?thesis by (simp add: pages_of_def)
next
  case (Some c)
  then have "(t, c) \<in> set (map (\<lambda>(t, info). (t, 0)) kDexSectionInfoMap)"
    unfolding PageCount_ctor_def by (rule map_of_SomeD)
  then have "c = 0" by auto
  with Some show ?thesis by (simp add: pages_of_def)
qed

lemma ProcessPageMap_Inr:
  assumes "ProcessPageMap pf g pagemap start end sections PageCount_ctor = Inr (c', out')"
  shows "(\<forall>page. start \<le> page \<and> page < end \<longrightarrow> page < length pagemap) \<and>
         (\<forall>t. pages_of c' t = length (resident_pages_of pf pagemap sections [start ..< end] t)) \<and>
         (g_verbose g \<longrightarrow> filter (\<lambda>ch. ch \<noteq> endl) out' =
            map (page_char pf pagemap sections) [start ..< end]) \<and>
         (\<not> g_verbose g \<longrightarrow> out' = [])"
proof -
  from assms obtain c1 out1 where
    ps: "ProcessPages pf g pagemap start sections [start ..< end] (PageCount_ctor, []) = Inr (c1, out1)"
    and c: "c' = c1"
    and o: "out' = (if g_verbose g \<and> (int end - int start) mod int kLineLength \<noteq> 0
                    then out1 @ [endl] else out1)"
    by (auto simp: ProcessPageMap_def and_then_eq_Inr)
  from ProcessPages_Inr [OF ps] c o show ?thesis
    by (auto simp: pages_of_ctor)
qed


lemma ProcessOneDexMapping_Some:
  assumes "ProcessOneDexMapping pf g pagemap map_start dex_file vdex_start = Inr (Some r)"
  shows "vdex_start \<le> Begin dex_file"
    and "first_page r = (Begin dex_file - vdex_start) div kPageSize pf"
    and "end_page r = RoundUp (first_page r + Size dex_file) (kPageSize pf) div kPageSize pf"
    and "ProcessPageMap pf g pagemap (first_page r) (end_page r)
           (GetSortedDexFileSections dex_file) PageCount_ctor =
         Inr (resident_counts r, page_chars r)"
    and "statistics r \<noteq> None \<Longrightarrow>
         DisplayDexStatistics pf (first_page r) (end_page r) (resident_counts r)
           (GetSortedDexFileSections dex_file) = Inr (statistics r)"
  using assms
  by (auto simp: ProcessOneDexMapping_def Let_def and_then_eq_Inr split: if_splits)

lemma upt_0_6: "[0 ..< 6] = [0, 1, 2, 3, 4, 5 :: nat]"
  by code_simp

lemma scenario_C_runs:
  "\<exists>r. ProcessOneDexMapping platform4k flags_sv pagemap_025 0 dex_of_six_pages 65536 = Inr (Some r) \<and>
       first_page r = 0 \<and> end_page r = 6 \<and> statistics r = Some scenario_C_table \<and>
       page_chars r = ''H.T..s'' @ [endl]"
  by (simp add: ProcessOneDexMapping_def dex_of_six_pages_def platform4k_def RoundUp_def Let_def
      ProcessPageMap_def upt_0_6 ProcessPage_def pagemap_025_def flags_sv_def three_sections_def
      kLineLength_def PageTypeChar_def kDexSectionInfoMap_def DisplayDexStatistics_def
      count_mapped_pages_def Increment_def PageCount_ctor_def Get_def scenario_C_table_def bit_iff_odd)




subsection \<open>The statistics table\<close>

lemma DisplayRows_sum:
  assumes "DisplayRows resident_pages mapped_pages sections (printed, tot) = Inr (printed', tot')"
  shows "tot' = tot + sum_list (map (\<lambda>s. pages_of resident_pages (type s)) sections) \<and>
         map row_resident printed' =
           map row_resident printed @ map (\<lambda>s. pages_of resident_pages (type s)) sections"
  using assms
proof (induction sections arbitrary: printed tot)
  case Nil
  then show ?case by simp
next
  case (Cons s sections)
  from Cons.prems obtain info where
    info: "map_of kDexSectionInfoMap (type s) = Some info"
    by (auto split: option.splits)
  with Cons.prems obtain n k where
    n: "Get (type s) resident_pages = Inr n" and
    rest: "DisplayRows resident_pages mapped_pages sections
             (printed @ [\<lparr> row_name = name info, row_resident = n, row_mapped = k \<rparr>], tot + n)
           = Inr (printed', tot')"
    by (auto simp: and_then_eq_Inr)
  from n have "pages_of resident_pages (type s) = n"
    by (auto simp: Get_def pages_of_def split: option.splits)
  with Cons.IH [OF rest] show ?case by simp
qed

text \<open>
  C8. In every table that \<^verbatim>\<open>DisplayDexStatistics\<close> prints, the resident-page counts of the
  rows add up to the resident-page count of the \<^verbatim>\<open>GRAND TOTAL\<close> row, whatever the sections
  and the counts are; each row shows the count held for the type of its section. The same
  holds of the table printed for a unit, where the count of a row is the number of resident
  pages attributed to the type of its section.
\<close>

theorem statistics_rows_sum_to_grand_total:
  "(DisplayDexStatistics pf start end resident_pages sections = Inr (Some t) \<longrightarrow>
      sum_list (map row_resident (rows t)) = grand_total_resident t \<and>
      map row_resident (rows t) = map (\<lambda>s. pages_of resident_pages (type s)) (rev sections)) \<and>
   (ProcessOneDexMapping pf g pagemap map_start dex_file vdex_start = Inr (Some r) \<and>
    statistics r = Some t \<longrightarrow>
      sum_list (map row_resident (rows t)) = grand_total_resident t \<and>
      map row_resident (rows t) =
        map (\<lambda>s. length (resident_pages_of pf pagemap (GetSortedDexFileSections dex_file)
                           [first_page r ..< end_page r] (type s)))
          (rev (GetSortedDexFileSections dex_file)))"
proof -
  have table: "sum_list (map row_resident (rows t)) = grand_total_resident t \<and>
      map row_resident (rows t) = map (\<lambda>s. pages_of resident_pages (type s)) (rev sections)"
    if "DisplayDexStatistics pf start end resident_pages sections = Inr (Some t)"
    for start "end" resident_pages sections
  proof -
    from that obtain printed tot where
      d: "DisplayRows resident_pages (count_mapped_pages pf start end sections) (rev sections)
            ([], 0) = Inr (printed, tot)"
      and t: "rows t = printed" "grand_total_resident t = tot"
      by (auto simp: DisplayDexStatistics_def Let_def and_then_eq_Inr split: if_splits)
    from DisplayRows_sum [OF d] t show ?thesis by simp
  qed
  have unit: "sum_list (map row_resident (rows t)) = grand_total_resident t \<and>
      map row_resident (rows t) =
        map (\<lambda>s. length (resident_pages_of pf pagemap (GetSortedDexFileSections dex_file)
                           [first_page r ..< end_page r] (type s)))
          (rev (GetSortedDexFileSections dex_file))"
    if run: "ProcessOneDexMapping pf g pagemap map_start dex_file vdex_start = Inr (Some r)"
      and st: "statistics r = Some t"
  proof -
    note p = ProcessOneDexMapping_Some [OF run]
    from p(5) st have "DisplayDexStatistics pf (first_page r) (end_page r) (resident_counts r)
           (GetSortedDexFileSections dex_file) = Inr (Some t)" by simp
    from table [OF this] have
      s: "sum_list (map row_resident (rows t)) = grand_total_resident t" and
      m: "map row_resident (rows t) =
            map (\<lambda>s. pages_of (resident_counts r) (type s))
              (rev (GetSortedDexFileSections dex_file))"
      by blast+
    from ProcessPageMap_Inr [OF p(4)] have
      "\<forall>t. pages_of (resident_counts r) t =
            length (resident_pages_of pf pagemap (GetSortedDexFileSections dex_file)
                      [first_page r ..< end_page r] t)"
      by blast
    with m have "map row_resident (rows t) =
        map (\<lambda>s. length (resident_pages_of pf pagemap (GetSortedDexFileSections dex_file)
                           [first_page r ..< end_page r] (type s)))
          (rev (GetSortedDexFileSections dex_file))"
      by simp
    with s show ?thesis by blast
  qed
  from table unit show ?thesis by blast
qed

theorem statistics_rows_sum_to_grand_total_witness:
  "report_statistics (ProcessOneDexMapping platform4k flags_sv pagemap_025 0 dex_of_six_pages 65536)
     = Some scenario_C_table \<and>
   map row_resident (rows scenario_C_table) = [1, 1, 1] \<and>
   sum_list (map row_resident (rows scenario_C_table)) = 3 \<and>
   grand_total_resident scenario_C_table = 3 \<and>
   DisplayDexStatistics platform4k 0 6
     (Increment kDexTypeStringDataItem (Increment kDexTypeTypeIdItem
        (Increment kDexTypeHeaderItem PageCount_ctor))) three_sections = Inr (Some scenario_C_table)"
proof -
  let ?run = "ProcessOneDexMapping platform4k flags_sv pagemap_025 0 dex_of_six_pages 65536"
  let ?counts = "Increment kDexTypeStringDataItem (Increment kDexTypeTypeIdItem
        (Increment kDexTypeHeaderItem PageCount_ctor))"
  from scenario_C_runs obtain r where
    r: "?run = Inr (Some r)" "statistics r = Some scenario_C_table" by blast
  have d: "DisplayDexStatistics platform4k 0 6 ?counts three_sections = Inr (Some scenario_C_table)"
    by (simp add: DisplayDexStatistics_def platform4k_def three_sections_def count_mapped_pages_def
        upt_0_6 Increment_def PageCount_ctor_def kDexSectionInfoMap_def Get_def
        scenario_C_table_def Let_def)
  from statistics_rows_sum_to_grand_total
         [of platform4k 0 6 ?counts three_sections scenario_C_table
             flags_sv pagemap_025 0 dex_of_six_pages 65536 r] r d
  have "sum_list (map row_resident (rows scenario_C_table)) = grand_total_resident scenario_C_table"
    by blast
  moreover have "grand_total_resident scenario_C_table = 3"
    and "map row_resident (rows scenario_C_table) = [1, 1, 1]"
    by (simp_all add: scenario_C_table_def)
  moreover have "report_statistics ?run = Some scenario_C_table"
    by (simp add: report_statistics_def r)
  ultimately show ?thesis using d by simp
qed

subsection \<open>Exit code\<close>

lemma DisplayMappingIfFromVdexFile_ok:
  "DisplayMappingIfFromVdexFile pf g m = Inr (ok, out) \<Longrightarrow> ok \<longleftrightarrow> \<not> mapping_fails m"
  by (auto simp: DisplayMappingIfFromVdexFile_def mapping_fails_def Let_def and_then_eq_Inr
      split: if_splits option.splits)

lemma DisplayMappings_ok:
  "DisplayMappings pf g ms = Inr (ok, outs) \<Longrightarrow> ok \<longleftrightarrow> (\<forall>m \<in> set ms. \<not> mapping_fails m)"
proof (induction ms arbitrary: ok outs)
  case Nil
  then show ?case by simp
next
  case (Cons m ms)
  from Cons.prems obtain ok1 out1 where
    one: "DisplayMappingIfFromVdexFile pf g m = Inr (ok1, out1)" and
    rest: "(if \<not> ok1 then Inr (False, [out1])
            else and_then (DisplayMappings pf g ms) (\<lambda>(ok2, outs2). Inr (ok2, out1 # outs2)))
           = Inr (ok, outs)"
    by (auto simp: and_then_eq_Inr)
  note m = DisplayMappingIfFromVdexFile_ok [OF one]
  show ?case
  proof (cases ok1)
    case False
    with rest m show ?thesis by auto
  next
    case True
    with rest obtain outs2 where "DisplayMappings pf g ms = Inr (ok, outs2)"
      by (auto simp: and_then_eq_Inr)
    from Cons.IH [OF this] True m show ?thesis by auto
  qed
qed

lemma DisplayMappings_no_vdex:
  "\<forall>m \<in> set ms. \<not> strstr (pm_map_name m) ''.vdex'' \<Longrightarrow>
   DisplayMappings pf g ms = Inr (True, map (\<lambda>m. []) ms)"
  by (induction ms) (simp_all add: DisplayMappingIfFromVdexFile_def)

lemma DexDiagMain_startup_fails:
  "startup_fails w argv \<Longrightarrow> DexDiagMain pf w argv = Inr (EXIT_FAILURE, [])"
  by (auto simp: startup_fails_def DexDiagMain_def Let_def flag_arguments_def pid_argument_def
      pid_of_def no_flags_def split: option.splits prod.splits)

lemma DexDiagMain_started:
  assumes "\<not> startup_fails w argv"
  shows "\<exists>g. parse_flags (flag_arguments argv) no_flags = Some g \<and>
         DexDiagMain pf w argv =
           and_then (DisplayMappings pf g (snd (pm_process_maps w (pid_of w argv))))
             (\<lambda>(ok, outs). if \<not> ok then Inr (EXIT_FAILURE, outs) else Inr (0, outs))"
  using assms
  by (auto simp: startup_fails_def DexDiagMain_def Let_def flag_arguments_def pid_argument_def
      pid_of_def no_flags_def split: option.splits prod.splits)

text \<open>
  C9. \<^verbatim>\<open>DexDiagMain\<close> returns \<^verbatim>\<open>EXIT_FAILURE\<close>, which is 1, when there are fewer than two
  arguments, when an argument before the last is not one of the three flags, when the last
  argument is not a number in full or \<^verbatim>\<open>kill(pid, 0)\<close> fails, and when
  \<^verbatim>\<open>pm_kernel_create\<close>, \<^verbatim>\<open>pm_process_create\<close> or \<^verbatim>\<open>pm_process_maps\<close> fails. A run
  that returns from \<^verbatim>\<open>DexDiagMain\<close> returns 0 or 1; it returns 1 exactly in the cases above
  and when, for a mapping of a container, \<^verbatim>\<open>VdexFile::Open\<close> or \<^verbatim>\<open>pm_map_pagemap\<close> fails,
  and 0 otherwise. Without mappings of containers a run that starts returns 0.
\<close>

theorem DexDiagMain_exit_code:
  "(startup_fails w argv \<longrightarrow> DexDiagMain pf w argv = Inr (EXIT_FAILURE, [])) \<and>
   (DexDiagMain pf w argv = Inr (code, outs) \<longrightarrow>
      (code = 0 \<or> code = 1) \<and>
      (code = 1 \<longleftrightarrow>
         startup_fails w argv \<or>
         (\<exists>m \<in> set (snd (pm_process_maps w (pid_of w argv))). mapping_fails m)) \<and>
      (code = 0 \<longleftrightarrow>
         \<not> startup_fails w argv \<and>
         (\<forall>m \<in> set (snd (pm_process_maps w (pid_of w argv))). \<not> mapping_fails m))) \<and>
   (\<not> startup_fails w argv \<and>
    (\<forall>m \<in> set (snd (pm_process_maps w (pid_of w argv))). \<not> strstr (pm_map_name m) ''.vdex'')
      \<longrightarrow> exit_code (DexDiagMain pf w argv) = Some 0)"
proof -
  let ?maps = "snd (pm_process_maps w (pid_of w argv))"
  have early: "startup_fails w argv \<longrightarrow> DexDiagMain pf w argv = Inr (EXIT_FAILURE, [])"
    using DexDiagMain_startup_fails by blast
  have codes: "(code = 0 \<or> code = 1) \<and>
      (code = 1 \<longleftrightarrow> startup_fails w argv \<or> (\<exists>m \<in> set ?maps. mapping_fails m)) \<and>
      (code = 0 \<longleftrightarrow> \<not> startup_fails w argv \<and> (\<forall>m \<in> set ?maps. \<not> mapping_fails m))"
    if res: "DexDiagMain pf w argv = Inr (code, outs)"
  proof (cases "startup_fails w argv")
    case True
    with res DexDiagMain_startup_fails [of w argv pf] show ?thesis
      by (simp add: EXIT_FAILURE_def)
  next
    case False
    from DexDiagMain_started [OF False, of pf] obtain g where
      "DexDiagMain pf w argv =
         and_then (DisplayMappings pf g ?maps)
           (\<lambda>(ok, outs). if \<not> ok then Inr (EXIT_FAILURE, outs) else Inr (0, outs))"
      by blast
    with res have "and_then (DisplayMappings pf g ?maps)
           (\<lambda>(ok, outs). if \<not> ok then Inr (EXIT_FAILURE, outs) else Inr (0, outs))
         = Inr (code, outs)"
      by simp
    then obtain ok where
      d: "DisplayMappings pf g ?maps = Inr (ok, outs)" and
      c: "code = (if \<not> ok then EXIT_FAILURE else 0)"
      by (auto simp: and_then_eq_Inr split: if_splits)
    from DisplayMappings_ok [OF d] c False show ?thesis
      by (auto simp: EXIT_FAILURE_def)
  qed
  have plain: "exit_code (DexDiagMain pf w argv) = Some 0"
    if "\<not> startup_fails w argv" and "\<forall>m \<in> set ?maps. \<not> strstr (pm_map_name m) ''.vdex''"
  proof -
    from DexDiagMain_started [OF that(1), of pf] DisplayMappings_no_vdex [OF that(2)]
    show ?thesis by (auto simp: exit_code_def)
  qed
  from early codes plain show ?thesis by blast
qed

lemma vdex_names:
  "strstr ''/data/app/base.vdex'' ''.vdex''" "\<not> strstr ''/system/lib64/libc.so'' ''.vdex''"
  by simp_all

lemma pid_1234: "pid_of (world_of maps) argv_sv = 1234"
  by (simp add: pid_of_def world_of_def argv_sv_def pid_argument_def)

lemma flags_of_argv_sv: "parse_flags (flag_arguments argv_sv) no_flags = Some flags_sv"
  by (simp add: flag_arguments_def argv_sv_def no_flags_def flags_sv_def)

lemma started: "\<not> startup_fails (world_of maps) argv_sv"
  unfolding startup_fails_def pid_1234 flags_of_argv_sv
  by (simp add: world_of_def argv_sv_def pid_argument_def)

lemma vdex_mapping_displayed:
  "\<exists>out. DisplayMappingIfFromVdexFile platform4k flags_sv vdex_mapping = Inr (True, out)"
proof -
  from scenario_C_runs obtain r where
    "ProcessOneDexMapping platform4k flags_sv pagemap_025 0 dex_of_six_pages 65536 = Inr (Some r)"
    by blast
  then show ?thesis
    by (simp add: DisplayMappingIfFromVdexFile_def vdex_mapping_def vdex_names)
qed

lemma unopened_mapping_displayed:
  "DisplayMappingIfFromVdexFile platform4k flags_sv unopened_mapping = Inr (False, [])"
  by (simp add: DisplayMappingIfFromVdexFile_def unopened_mapping_def vdex_mapping_def vdex_names)

lemma library_mapping_displayed:
  "DisplayMappingIfFromVdexFile platform4k flags_sv library_mapping = Inr (True, [])"
  by (simp add: DisplayMappingIfFromVdexFile_def library_mapping_def vdex_names)

lemma tool_runs:
  "\<exists>code outs. DexDiagMain platform4k (world_of [library_mapping, vdex_mapping]) argv_sv
                  = Inr (code, outs)"
  "\<exists>code outs. DexDiagMain platform4k (world_of [vdex_mapping, unopened_mapping]) argv_sv
                  = Inr (code, outs)"
proof -
  from vdex_mapping_displayed obtain out where
    v: "DisplayMappingIfFromVdexFile platform4k flags_sv vdex_mapping = Inr (True, out)" ..
  from DexDiagMain_started [OF started [of "[library_mapping, vdex_mapping]"], of platform4k]
  show "\<exists>code outs. DexDiagMain platform4k (world_of [library_mapping, vdex_mapping]) argv_sv
                  = Inr (code, outs)"
    by (simp add: flags_of_argv_sv pid_1234 world_of_def library_mapping_displayed v)
  from DexDiagMain_started [OF started [of "[vdex_mapping, unopened_mapping]"], of platform4k]
  show "\<exists>code outs. DexDiagMain platform4k (world_of [vdex_mapping, unopened_mapping]) argv_sv
                  = Inr (code, outs)"
    by (simp add: flags_of_argv_sv pid_1234 world_of_def unopened_mapping_displayed v)
qed

theorem DexDiagMain_exit_code_witness:
  "exit_code (DexDiagMain platform4k (world_of [library_mapping, vdex_mapping]) argv_sv) = Some 0 \<and>
   exit_code (DexDiagMain platform4k (world_of [vdex_mapping, unopened_mapping]) argv_sv) = Some 1 \<and>
   exit_code (DexDiagMain platform4k (world_of [library_mapping]) argv_sv) = Some 0 \<and>
   exit_code (DexDiagMain platform4k (world_of [vdex_mapping]) [''dexdiag'']) = Some 1 \<and>
   exit_code (DexDiagMain platform4k (world_of [vdex_mapping]) [''dexdiag'', ''-x'', ''1234''])
     = Some 1 \<and>
   exit_code (DexDiagMain platform4k (world_of [vdex_mapping]) [''dexdiag'', ''12x'']) = Some 1 \<and>
   exit_code (DexDiagMain platform4k (world_of [vdex_mapping]) [''dexdiag'', ''77'']) = Some 1"
proof -
  let ?good = "world_of [library_mapping, vdex_mapping]"
  let ?bad = "world_of [vdex_mapping, unopened_mapping]"
  let ?w = "world_of [vdex_mapping]"
  have maps: "\<And>ms. snd (pm_process_maps (world_of ms) (pid_of (world_of ms) argv_sv)) = ms"
    by (simp add: world_of_def)
  have fails: "\<not> mapping_fails library_mapping" "\<not> mapping_fails vdex_mapping"
    "mapping_fails unopened_mapping"
    by (simp_all add: mapping_fails_def library_mapping_def vdex_mapping_def unopened_mapping_def
        vdex_names)
  from tool_runs(1) obtain c1 o1 where r1: "DexDiagMain platform4k ?good argv_sv = Inr (c1, o1)"
    by blast
  from DexDiagMain_exit_code [of ?good argv_sv platform4k c1 o1] r1 started fails
  have "c1 = 0" by (simp add: maps)
  with r1 have e1: "exit_code (DexDiagMain platform4k ?good argv_sv) = Some 0"
    by (simp add: exit_code_def)
  from tool_runs(2) obtain c2 o2 where r2: "DexDiagMain platform4k ?bad argv_sv = Inr (c2, o2)"
    by blast
  from DexDiagMain_exit_code [of ?bad argv_sv platform4k c2 o2] r2 started fails
  have "c2 = 1" by (simp add: maps)
  with r2 have e2: "exit_code (DexDiagMain platform4k ?bad argv_sv) = Some 1"
    by (simp add: exit_code_def)
  from DexDiagMain_exit_code [of "world_of [library_mapping]" argv_sv platform4k 0 "[]"] started
  have e3: "exit_code (DexDiagMain platform4k (world_of [library_mapping]) argv_sv) = Some 0"
    by (simp add: maps library_mapping_def vdex_names)
  have s4: "startup_fails ?w [''dexdiag'']"
    by (simp add: startup_fails_def)
  have s5: "startup_fails ?w [''dexdiag'', ''-x'', ''1234'']"
    by (simp add: startup_fails_def flag_arguments_def no_flags_def)
  have s6: "startup_fails ?w [''dexdiag'', ''12x'']"
    by (simp add: startup_fails_def pid_argument_def world_of_def)
  have s7: "startup_fails ?w [''dexdiag'', ''77'']"
    by (simp add: startup_fails_def pid_argument_def world_of_def pid_of_def)
  from DexDiagMain_exit_code [of ?w "[''dexdiag'']" platform4k 0 "[]"] s4
  have e4: "exit_code (DexDiagMain platform4k ?w [''dexdiag'']) = Some 1"
    by (simp add: exit_code_def EXIT_FAILURE_def)
  from DexDiagMain_exit_code [of ?w "[''dexdiag'', ''-x'', ''1234'']" platform4k 0 "[]"] s5
  have e5: "exit_code (DexDiagMain platform4k ?w [''dexdiag'', ''-x'', ''1234'']) = Some 1"
    by (simp add: exit_code_def EXIT_FAILURE_def)
  from DexDiagMain_exit_code [of ?w "[''dexdiag'', ''12x'']" platform4k 0 "[]"] s6
  have e6: "exit_code (DexDiagMain platform4k ?w [''dexdiag'', ''12x'']) = Some 1"
    by (simp add: exit_code_def EXIT_FAILURE_def)
  from DexDiagMain_exit_code [of ?w "[''dexdiag'', ''77'']" platform4k 0 "[]"] s7
  have e7: "exit_code (DexDiagMain platform4k ?w [''dexdiag'', ''77'']) = Some 1"
    by (simp add: exit_code_def EXIT_FAILURE_def)
  from e1 e2 e3 e4 e5 e6 e7 show ?thesis by blast
qed

section \<open>Properties of StackVisitor\<close>

lemma position_on_fields [simp]:
  "walk_kind (position_on fr v) = walk_kind v"
  "num_frames (position_on fr v) = num_frames v"
  "cur_depth (position_on fr v) = cur_depth v"
  by (cases fr; simp)+

lemma WalkFrames_prefix:
  "map fst (WalkFrames kCount incl VF frs v) =
     take (length (WalkFrames kCount incl VF frs v)) (filter (is_visited incl (walk_kind v)) frs)"
  by (induction frs arbitrary: v) (simp_all add: Let_def)

lemma unat_Suc_64:
  fixes x :: "64 word"
  assumes "unat x + 1 < 2 ^ 64"
  shows "unat (x + 1) = unat x + 1"
proof -
  have "unat x + unat (1 :: 64 word) < 2 ^ LENGTH(64)" using assms by simp
  then have "unat (x + 1) = unat x + unat (1 :: 64 word)" by (simp only: unat_add_lem)
  then show ?thesis by simp
qed

lemma depth_step:
  assumes "unat (cur_depth v) + length (filter P (a # frs)) < 2 ^ 64"
  shows "unat (cur_depth (if P a then (position_on a v)\<lparr> cur_depth := cur_depth (position_on a v) + 1 \<rparr>
                          else position_on a v)) =
         unat (cur_depth v) + (if P a then 1 else 0)"
proof (cases "P a")
  case True
  with assms have "unat (cur_depth v) + 1 < 2 ^ 64" by simp
  then have "unat (cur_depth v + 1) = unat (cur_depth v) + 1" by (rule unat_Suc_64)
  with True show ?thesis by simp
next
  case False
  then show ?thesis by simp
qed

lemma WalkFrames_bounds:
  assumes "unat (cur_depth v) + length (filter (counts_toward_depth kCount (walk_kind v)) frs) < 2 ^ 64"
    and "(fr, s) \<in> set (WalkFrames kCount incl VF frs v)"
  shows "walk_kind s = walk_kind v \<and> num_frames s = num_frames v \<and>
         unat (cur_depth v) \<le> unat (cur_depth s) \<and>
         (counts_toward_depth kCount (walk_kind v) fr \<longrightarrow>
            unat (cur_depth s) <
              unat (cur_depth v) + length (filter (counts_toward_depth kCount (walk_kind v)) frs))"
  using assms
proof (induction frs arbitrary: v)
  case Nil
  then show ?case by simp
next
  case (Cons a frs)
  let ?k = "walk_kind v"
  let ?v1 = "position_on a v"
  let ?v2 = "if counts_toward_depth kCount ?k a then ?v1\<lparr> cur_depth := cur_depth ?v1 + 1 \<rparr> else ?v1"
  have k2: "walk_kind ?v2 = ?k" and n2: "num_frames ?v2 = num_frames v" by simp_all
  have d2: "unat (cur_depth ?v2) =
              unat (cur_depth v) + (if counts_toward_depth kCount ?k a then 1 else 0)"
    using Cons.prems(1) by (rule depth_step)
  have room: "unat (cur_depth ?v2) + length (filter (counts_toward_depth kCount (walk_kind ?v2)) frs)
                < 2 ^ 64"
    using Cons.prems(1) unfolding k2 d2 by (cases "counts_toward_depth kCount ?k a") simp_all
  from Cons.prems(2) consider
    (here) "(fr, s) = (a, ?v1)" |
    (later) "(fr, s) \<in> set (WalkFrames kCount incl VF frs ?v2)"
    by (auto simp: Let_def split: if_splits)
  then show ?case
  proof cases
    case here
    then show ?thesis by auto
  next
    case later
    from Cons.IH [OF room later] show ?thesis
      unfolding k2 n2 d2 by auto
  qed
qed

lemma WalkFrames_sorted:
  assumes "unat (cur_depth v) + length (filter (counts_toward_depth kCount (walk_kind v)) frs) < 2 ^ 64"
  shows "sorted_wrt (\<lambda>(fr1, s1) (fr2, s2).
            unat (cur_depth s1) \<le> unat (cur_depth s2) \<and>
            (counts_toward_depth kCount (walk_kind v) fr1 \<longrightarrow>
               unat (cur_depth s1) < unat (cur_depth s2)))
          (WalkFrames kCount incl VF frs v)"
  using assms
proof (induction frs arbitrary: v)
  case Nil
  then show ?case by simp
next
  case (Cons a frs)
  let ?k = "walk_kind v"
  let ?v1 = "position_on a v"
  let ?v2 = "if counts_toward_depth kCount ?k a then ?v1\<lparr> cur_depth := cur_depth ?v1 + 1 \<rparr> else ?v1"
  let ?R = "\<lambda>(fr1, s1) (fr2, s2).
            unat (cur_depth s1) \<le> unat (cur_depth s2) \<and>
            (counts_toward_depth kCount ?k fr1 \<longrightarrow> unat (cur_depth s1) < unat (cur_depth s2))"
  have k2: "walk_kind ?v2 = ?k" by simp
  have d2: "unat (cur_depth ?v2) =
              unat (cur_depth v) + (if counts_toward_depth kCount ?k a then 1 else 0)"
    using Cons.prems by (rule depth_step)
  have room: "unat (cur_depth ?v2) + length (filter (counts_toward_depth kCount (walk_kind ?v2)) frs)
                < 2 ^ 64"
    using Cons.prems unfolding k2 d2 by (cases "counts_toward_depth kCount ?k a") simp_all
  have tail: "sorted_wrt ?R (WalkFrames kCount incl VF frs ?v2)"
    using Cons.IH [OF room] unfolding k2 .
  have first: "?R (a, ?v1) x" if "x \<in> set (WalkFrames kCount incl VF frs ?v2)" for x
  proof -
    obtain fr s where x: "x = (fr, s)" by (cases x)
    from WalkFrames_bounds [OF room] that x
    have "unat (cur_depth ?v2) \<le> unat (cur_depth s)" by blast
    with d2 x show ?thesis by auto
  qed
  show ?case
  proof (cases "is_visited incl ?k a")
    case False
    with tail show ?thesis by (simp add: Let_def)
  next
    case True
    show ?thesis
    proof (cases "VF ?v1")
      case False
      with True show ?thesis by (simp add: Let_def)
    next
      case vf: True
      from True vf have "WalkFrames kCount incl VF (a # frs) v =
                   (a, ?v1) # WalkFrames kCount incl VF frs ?v2"
        by (simp add: Let_def)
      with tail first show ?thesis by simp
    qed
  qed
qed

lemma height_of_snapshot:
  assumes n: "n < 2 ^ 64" and d: "unat (cur_depth s) < n" and z: "num_frames s = 0"
    and c: "ComputeNumFrames kCount thread (walk_kind s) = of_nat n"
  shows "unat (fst (GetFrameHeight kCount thread s)) = n - 1 - unat (cur_depth s)"
    and "unat (fst (GetFrameId kCount thread s)) = n - unat (cur_depth s)"
proof -
  let ?d = "unat (cur_depth s)"
  have h: "fst (GetFrameHeight kCount thread s) = of_nat n - cur_depth s - 1"
    using z c by (simp add: GetFrameHeight_def GetNumFrames_def Let_def)
  have "of_nat (n - 1 - ?d) + cur_depth s + 1 = (of_nat (n - 1 - ?d + ?d + 1) :: 64 word)"
    by (simp only: of_nat_add of_nat_unat ucast_id of_nat_1)
  also have "n - 1 - ?d + ?d + 1 = n" using d by simp
  finally have w: "of_nat n - cur_depth s - 1 = (of_nat (n - 1 - ?d) :: 64 word)"
    by (simp add: algebra_simps)
  have "n - 1 - ?d < 2 ^ 64" using n by simp
  then have u: "unat (of_nat (n - 1 - ?d) :: 64 word) = n - 1 - ?d"
    by (simp add: unat_of_nat)
  from h w u show "unat (fst (GetFrameHeight kCount thread s)) = n - 1 - ?d" by simp
  have "fst (GetFrameId kCount thread s) = fst (GetFrameHeight kCount thread s) + 1"
    by (simp add: GetFrameId_def case_prod_unfold)
  with h have i: "fst (GetFrameId kCount thread s) = of_nat n - cur_depth s - 1 + 1"
    by simp
  have "of_nat (n - ?d) + cur_depth s = (of_nat (n - ?d + ?d) :: 64 word)"
    by (simp only: of_nat_add of_nat_unat ucast_id)
  also have "n - ?d + ?d = n" using d by simp
  finally have w2: "of_nat n - cur_depth s - 1 + 1 = (of_nat (n - ?d) :: 64 word)"
    by (simp add: algebra_simps)
  have "n - ?d < 2 ^ 64" using n by simp
  then have "unat (of_nat (n - ?d) :: 64 word) = n - ?d"
    by (simp add: unat_of_nat)
  with i w2 show "unat (fst (GetFrameId kCount thread s)) = n - ?d" by simp
qed

lemma sorted_depths_heights:
  fixes ds :: "nat list"
  assumes "sorted_wrt (<) ds" and "\<forall>d \<in> set ds. d < n"
  shows "sorted_wrt (>) (map (\<lambda>d. n - 1 - d) ds)" and "sorted_wrt (>) (map (\<lambda>d. n - d) ds)"
proof -
  have "sorted_wrt (\<lambda>x y. n - 1 - x > n - 1 - y) ds"
    using assms(1)
  proof (rule sorted_wrt_mono_rel [rotated])
    fix x y assume "x \<in> set ds" "y \<in> set ds" "x < y"
    with assms(2) have "x < n" "y < n" "x < y" by simp_all
    then show "n - 1 - x > n - 1 - y" by arith
  qed
  then show "sorted_wrt (>) (map (\<lambda>d. n - 1 - d) ds)" by (simp add: sorted_wrt_map)
  have "sorted_wrt (\<lambda>x y. n - x > n - y) ds"
    using assms(1)
  proof (rule sorted_wrt_mono_rel [rotated])
    fix x y assume "x \<in> set ds" "y \<in> set ds" "x < y"
    with assms(2) have "x < n" "y < n" "x < y" by simp_all
    then show "n - x > n - y" by arith
  qed
  then show "sorted_wrt (>) (map (\<lambda>d. n - d) ds)" by (simp add: sorted_wrt_map)
qed

text \<open>
  C4, as amended. A walk hands the frames to \<^verbatim>\<open>VisitFrame\<close> in the order of the stack, from
  the newest frame outward. Over the visited frames that advance the depth, the frame depth
  (0 at the newest frame) increases strictly, the frame height \<^verbatim>\<open>GetNumFrames() - cur_depth_ - 1\<close>
  decreases strictly from \<open>n - 1\<close> at the newest frame, and the frame id, which is the height
  plus 1, decreases strictly from \<open>n\<close> and is at least 1; here \<open>n\<close> is the number of frames
  of the stack that advance the depth. Height and id count from the oldest frame.
\<close>

theorem WalkStack_depth_height_id:
  "length thread < 2 ^ 64 \<longrightarrow>
     (let tr = WalkStack kCount incl VF thread (StackVisitor_ctor k 0);
          ctr = counted_visits kCount tr;
          n = length (filter (counts_toward_depth kCount k) thread)
      in map fst tr = take (length tr) (filter (is_visited incl k) thread) \<and>
         sorted_wrt (<) (frame_depths ctr) \<and>
         sorted_wrt (>) (frame_heights kCount thread ctr) \<and>
         sorted_wrt (>) (frame_ids kCount thread ctr) \<and>
         frame_heights kCount thread ctr = map (\<lambda>d. n - 1 - d) (frame_depths ctr) \<and>
         frame_ids kCount thread ctr = map (\<lambda>d. n - d) (frame_depths ctr) \<and>
         (\<forall>d \<in> set (frame_depths ctr). d < n) \<and>
         ((\<exists>fr rest. thread = fr # rest \<and> is_visited incl k fr \<and> counts_toward_depth kCount k fr)
            \<longrightarrow> take 1 (frame_depths ctr) = [0] \<and>
                take 1 (frame_heights kCount thread ctr) = [n - 1] \<and>
                take 1 (frame_ids kCount thread ctr) = [n]))"
proof
  assume len: "length thread < 2 ^ 64"
  define v0 where "v0 = StackVisitor_ctor k 0"
  define tr where "tr = WalkStack kCount incl VF thread v0"
  define ctr where "ctr = counted_visits kCount tr"
  define n where "n = length (filter (counts_toward_depth kCount k) thread)"
  have v0: "walk_kind v0 = k" "num_frames v0 = 0" "cur_depth v0 = 0"
    by (simp_all add: v0_def StackVisitor_ctor_def)
  have "n \<le> length thread" by (simp add: n_def)
  with len have n64: "n < 2 ^ 64" by simp
  then have room: "unat (cur_depth v0) +
      length (filter (counts_toward_depth kCount (walk_kind v0)) thread) < 2 ^ 64"
    by (simp add: v0 n_def)
  have order: "map fst tr = take (length tr) (filter (is_visited incl k) thread)"
    using WalkFrames_prefix [of kCount incl VF thread v0] by (simp add: tr_def WalkStack_def v0)
  have snap: "walk_kind s = k \<and> num_frames s = 0 \<and>
              (counts_toward_depth kCount k fr \<longrightarrow> unat (cur_depth s) < n)"
    if "(fr, s) \<in> set tr" for fr s
    using WalkFrames_bounds [OF room, of fr s incl VF] that
    by (simp add: tr_def WalkStack_def v0 n_def)
  have in_ctr: "(fr, s) \<in> set tr \<and> counts_toward_depth kCount k fr" if "(fr, s) \<in> set ctr" for fr s
    using that snap by (auto simp: ctr_def counted_visits_def)
  have bound: "\<forall>d \<in> set (frame_depths ctr). d < n"
    using in_ctr snap by (fastforce simp: frame_depths_def GetFrameDepth_def)
  have "sorted_wrt (\<lambda>(fr1, s1) (fr2, s2).
            unat (cur_depth s1) \<le> unat (cur_depth s2) \<and>
            (counts_toward_depth kCount k fr1 \<longrightarrow> unat (cur_depth s1) < unat (cur_depth s2))) tr"
    using WalkFrames_sorted [OF room, of incl VF] by (simp add: tr_def WalkStack_def v0)
  then have "sorted_wrt (\<lambda>(fr1, s1) (fr2, s2).
            unat (cur_depth s1) \<le> unat (cur_depth s2) \<and>
            (counts_toward_depth kCount k fr1 \<longrightarrow> unat (cur_depth s1) < unat (cur_depth s2))) ctr"
    unfolding ctr_def counted_visits_def by (rule sorted_wrt_filter)
  then have "sorted_wrt (\<lambda>x y. unat (GetFrameDepth (snd x)) < unat (GetFrameDepth (snd y))) ctr"
  proof (rule sorted_wrt_mono_rel [rotated])
    fix x y
    assume x: "x \<in> set ctr" and "y \<in> set ctr"
      and r: "(case x of (fr1, s1) \<Rightarrow> \<lambda>(fr2, s2).
            unat (cur_depth s1) \<le> unat (cur_depth s2) \<and>
            (counts_toward_depth kCount k fr1 \<longrightarrow> unat (cur_depth s1) < unat (cur_depth s2))) y"
    from x in_ctr [of "fst x" "snd x"] have "counts_toward_depth kCount k (fst x)" by simp
    with r show "unat (GetFrameDepth (snd x)) < unat (GetFrameDepth (snd y))"
      by (cases x; cases y) (simp add: GetFrameDepth_def)
  qed
  then have depths: "sorted_wrt (<) (frame_depths ctr)"
    by (simp add: frame_depths_def sorted_wrt_map case_prod_unfold)
  have cnf: "ComputeNumFrames kCount thread k = of_nat n"
    by (simp add: ComputeNumFrames_def n_def)
  have hs: "frame_heights kCount thread ctr = map (\<lambda>d. n - 1 - d) (frame_depths ctr)"
    unfolding frame_heights_def frame_depths_def map_map
  proof (rule map_cong [OF refl])
    fix x assume xin: "x \<in> set ctr"
    obtain fr s where x: "x = (fr, s)" by (cases x)
    with xin have m: "(fr, s) \<in> set ctr" by simp
    from in_ctr [OF m] snap [of fr s] have
      "unat (cur_depth s) < n" "num_frames s = 0" "walk_kind s = k" by simp_all
    with height_of_snapshot(1) [OF n64, of s kCount thread] cnf x
    show "(case x of (fr, v) \<Rightarrow> unat (fst (GetFrameHeight kCount thread v))) =
          ((\<lambda>d. n - 1 - d) \<circ> (\<lambda>(fr, v). unat (GetFrameDepth v))) x"
      by (simp add: GetFrameDepth_def)
  qed
  have ids: "frame_ids kCount thread ctr = map (\<lambda>d. n - d) (frame_depths ctr)"
    unfolding frame_ids_def frame_depths_def map_map
  proof (rule map_cong [OF refl])
    fix x assume xin: "x \<in> set ctr"
    obtain fr s where x: "x = (fr, s)" by (cases x)
    with xin have m: "(fr, s) \<in> set ctr" by simp
    from in_ctr [OF m] snap [of fr s] have
      "unat (cur_depth s) < n" "num_frames s = 0" "walk_kind s = k" by simp_all
    with height_of_snapshot(2) [OF n64, of s kCount thread] cnf x
    show "(case x of (fr, v) \<Rightarrow> unat (fst (GetFrameId kCount thread v))) =
          ((\<lambda>d. n - d) \<circ> (\<lambda>(fr, v). unat (GetFrameDepth v))) x"
      by (simp add: GetFrameDepth_def)
  qed
  have sh: "sorted_wrt (>) (frame_heights kCount thread ctr)"
    using sorted_depths_heights(1) [OF depths bound] by (simp only: hs)
  have si: "sorted_wrt (>) (frame_ids kCount thread ctr)"
    using sorted_depths_heights(2) [OF depths bound] by (simp only: ids)
  have newest: "take 1 (frame_depths ctr) = [0] \<and>
                take 1 (frame_heights kCount thread ctr) = [n - 1] \<and>
                take 1 (frame_ids kCount thread ctr) = [n]"
    if "\<exists>fr rest. thread = fr # rest \<and> is_visited incl k fr \<and> counts_toward_depth kCount k fr"
  proof -
    from that obtain fr rest where t: "thread = fr # rest" and vis: "is_visited incl k fr"
      and cnt: "counts_toward_depth kCount k fr" by blast
    from t vis obtain more where "tr = (fr, position_on fr v0) # more"
      by (simp add: tr_def WalkStack_def v0 Let_def)
    with cnt obtain more' where "ctr = (fr, position_on fr v0) # more'"
      by (simp add: ctr_def counted_visits_def v0)
    then have "take 1 (frame_depths ctr) = [0]"
      by (simp add: frame_depths_def GetFrameDepth_def v0)
    with hs ids show ?thesis by (simp add: take_map)
  qed
  have all: "map fst tr = take (length tr) (filter (is_visited incl k) thread) \<and>
         sorted_wrt (<) (frame_depths ctr) \<and>
         sorted_wrt (>) (frame_heights kCount thread ctr) \<and>
         sorted_wrt (>) (frame_ids kCount thread ctr) \<and>
         frame_heights kCount thread ctr = map (\<lambda>d. n - 1 - d) (frame_depths ctr) \<and>
         frame_ids kCount thread ctr = map (\<lambda>d. n - d) (frame_depths ctr) \<and>
         (\<forall>d \<in> set (frame_depths ctr). d < n) \<and>
         ((\<exists>fr rest. thread = fr # rest \<and> is_visited incl k fr \<and> counts_toward_depth kCount k fr)
            \<longrightarrow> take 1 (frame_depths ctr) = [0] \<and>
                take 1 (frame_heights kCount thread ctr) = [n - 1] \<and>
                take 1 (frame_ids kCount thread ctr) = [n])"
    using order depths sh si hs ids bound newest by blast
  then show "let tr = WalkStack kCount incl VF thread (StackVisitor_ctor k 0);
          ctr = counted_visits kCount tr;
          n = length (filter (counts_toward_depth kCount k) thread)
      in map fst tr = take (length tr) (filter (is_visited incl k) thread) \<and>
         sorted_wrt (<) (frame_depths ctr) \<and>
         sorted_wrt (>) (frame_heights kCount thread ctr) \<and>
         sorted_wrt (>) (frame_ids kCount thread ctr) \<and>
         frame_heights kCount thread ctr = map (\<lambda>d. n - 1 - d) (frame_depths ctr) \<and>
         frame_ids kCount thread ctr = map (\<lambda>d. n - d) (frame_depths ctr) \<and>
         (\<forall>d \<in> set (frame_depths ctr). d < n) \<and>
         ((\<exists>fr rest. thread = fr # rest \<and> is_visited incl k fr \<and> counts_toward_depth kCount k fr)
            \<longrightarrow> take 1 (frame_depths ctr) = [0] \<and>
                take 1 (frame_heights kCount thread ctr) = [n - 1] \<and>
                take 1 (frame_ids kCount thread ctr) = [n])"
    unfolding Let_def tr_def v0_def ctr_def n_def .
qed

lemmas walk_eval =
  WalkStack_def StackVisitor_ctor_def Let_def frame_ids_def frame_heights_def frame_depths_def
  GetFrameId_def GetFrameHeight_def GetNumFrames_def ComputeNumFrames_def GetFrameDepth_def
  visit_all_def counted_visits_def nullptr_def

theorem WalkStack_depth_height_id_witness:
  "map fst (WalkStack kYes False visit_all mixed_thread (StackVisitor_ctor kIncludeInlinedFrames 0))
     = [InlinedFrame 4096 1, CompiledFrame 4096, InterpreterFrame 8192] \<and>
   frame_depths (counted_visits kYes
     (WalkStack kYes False visit_all mixed_thread (StackVisitor_ctor kIncludeInlinedFrames 0)))
     = [0, 1, 3] \<and>
   frame_heights kYes mixed_thread (counted_visits kYes
     (WalkStack kYes False visit_all mixed_thread (StackVisitor_ctor kIncludeInlinedFrames 0)))
     = [3, 2, 0] \<and>
   frame_ids kYes mixed_thread (counted_visits kYes
     (WalkStack kYes False visit_all mixed_thread (StackVisitor_ctor kIncludeInlinedFrames 0)))
     = [4, 3, 1]"
proof -
  let ?tr = "WalkStack kYes False visit_all mixed_thread (StackVisitor_ctor kIncludeInlinedFrames 0)"
  have len: "length mixed_thread < 2 ^ 64" by (simp add: mixed_thread_def)
  have n: "length (filter (counts_toward_depth kYes kIncludeInlinedFrames) mixed_thread) = 4"
    by (simp add: mixed_thread_def)
  have fr: "map fst ?tr = [InlinedFrame 4096 1, CompiledFrame 4096, InterpreterFrame 8192]"
    by (simp add: walk_eval mixed_thread_def)
  have d: "frame_depths (counted_visits kYes ?tr) = [0, 1, 3]"
    by (simp add: walk_eval mixed_thread_def)
  from WalkStack_depth_height_id [of mixed_thread kYes False visit_all kIncludeInlinedFrames] len
  have "frame_heights kYes mixed_thread (counted_visits kYes ?tr) =
          map (\<lambda>d. 4 - 1 - d) (frame_depths (counted_visits kYes ?tr)) \<and>
        frame_ids kYes mixed_thread (counted_visits kYes ?tr) =
          map (\<lambda>d. 4 - d) (frame_depths (counted_visits kYes ?tr))"
    unfolding Let_def n by blast
  with d fr show ?thesis by simp
qed

text \<open>
  The claim as stated has the height count from the newest frame and the id increase from 1
  over the visited frames. On a stack of three interpreter frames the walk sees the depths
  0, 1, 2, the heights 2, 1, 0 and the ids 3, 2, 1: the newest frame has height 2, and the
  ids fall to 1.
\<close>

theorem WalkStack_ids_decrease_to_one:
  "frame_depths (WalkStack kYes False visit_all three_interpreter_frames
       (StackVisitor_ctor kIncludeInlinedFrames 0)) = [0, 1, 2] \<and>
   frame_heights kYes three_interpreter_frames
     (WalkStack kYes False visit_all three_interpreter_frames
       (StackVisitor_ctor kIncludeInlinedFrames 0)) = [2, 1, 0] \<and>
   frame_ids kYes three_interpreter_frames
     (WalkStack kYes False visit_all three_interpreter_frames
       (StackVisitor_ctor kIncludeInlinedFrames 0)) = [3, 2, 1] \<and>
   \<not> sorted [3, 2, 1 :: nat] \<and> hd [3, 2, 1 :: nat] \<noteq> 1 \<and> hd [2, 1, 0 :: nat] \<noteq> 0"
  by (simp add: walk_eval three_interpreter_frames_def)

end
